theory Spec2Isabelle
  imports Complex_Main
begin

section \<open>Python strings\<close>

text \<open>
  A Python \<open>str\<close> is modelled as a HOL \<open>string\<close>; a character stands for the code
  point of the same number, so the documents covered are those whose code points lie
  below 256.  The character classes below are Python's on that range.
\<close>

definition code :: "char \<Rightarrow> nat" where
  "code c = of_char c"

text \<open>\<open>str.isspace\<close> on one character: the set used by \<open>strip()\<close> and \<open>split()\<close>.\<close>

definition isspace :: "char \<Rightarrow> bool" where
  "isspace c = ((9 \<le> code c \<and> code c \<le> 13) \<or> (28 \<le> code c \<and> code c \<le> 32)
                \<or> code c = 133 \<or> code c = 160)"

text \<open>The regular-expression classes \<open>\d\<close> and \<open>\w\<close> of a \<open>str\<close> pattern.\<close>

definition isdigit :: "char \<Rightarrow> bool" where
  "isdigit c = (48 \<le> code c \<and> code c \<le> 57)"

definition isword :: "char \<Rightarrow> bool" where
  "isword c = (isdigit c \<or> (65 \<le> code c \<and> code c \<le> 90) \<or> code c = 95
               \<or> (97 \<le> code c \<and> code c \<le> 122)
               \<or> code c = 170 \<or> code c = 178 \<or> code c = 179 \<or> code c = 181
               \<or> code c = 185 \<or> code c = 186 \<or> (188 \<le> code c \<and> code c \<le> 190)
               \<or> (192 \<le> code c \<and> code c \<noteq> 215 \<and> code c \<noteq> 247))"

definition strip :: "string \<Rightarrow> string" where
  "strip s = rev (dropWhile isspace (rev (dropWhile isspace s)))"

definition lower_char :: "char \<Rightarrow> char" where
  "lower_char c =
     (if (65 \<le> code c \<and> code c \<le> 90) \<or> (192 \<le> code c \<and> code c \<le> 222 \<and> code c \<noteq> 215)
      then char_of (code c + 32) else c)"

definition lower :: "string \<Rightarrow> string" where
  "lower s = map lower_char s"

text \<open>
  \<open>str.upper\<close> is modelled on ASCII, where it maps a character to a character; the
  section names it is applied to are ASCII (see \<open>modelled_name\<close> below).
\<close>

definition upper_char :: "char \<Rightarrow> char" where
  "upper_char c = (if 97 \<le> code c \<and> code c \<le> 122 then char_of (code c - 32) else c)"

definition upper :: "string \<Rightarrow> string" where
  "upper s = map upper_char s"

primrec startswith :: "string \<Rightarrow> string \<Rightarrow> bool" where
  "startswith s [] = True"
| "startswith s (c # w) = (case s of [] \<Rightarrow> False | d # t \<Rightarrow> d = c \<and> startswith t w)"

text \<open>
  \<open>find_sub w s i\<close> looks for the first occurrence of \<open>w\<close> in the suffix \<open>s\<close> that
  begins at index \<open>i\<close> of the whole string; \<open>find_str s w start\<close> is \<open>s.find(w, start)\<close>
  with \<open>None\<close> for \<open>-1\<close>, and \<open>py_in w s\<close> is \<open>w in s\<close>.
\<close>

primrec find_sub :: "string \<Rightarrow> string \<Rightarrow> nat \<Rightarrow> nat option" where
  "find_sub w [] i = (if w = [] then Some i else None)"
| "find_sub w (c # cs) i = (if startswith (c # cs) w then Some i else find_sub w cs (Suc i))"

definition find_str :: "string \<Rightarrow> string \<Rightarrow> nat \<Rightarrow> nat option" where
  "find_str s w start = (if length s < start then None else find_sub w (drop start s) start)"

definition py_in :: "string \<Rightarrow> string \<Rightarrow> bool" where
  "py_in w s = (find_str s w 0 \<noteq> None)"

text \<open>
  \<open>s.replace(old, new)\<close> for a non-empty \<open>old\<close>: the occurrences are replaced from the
  left and do not overlap; the counter skips the rest of a replaced occurrence.
\<close>

primrec replace_skip :: "string \<Rightarrow> string \<Rightarrow> string \<Rightarrow> nat \<Rightarrow> string" where
  "replace_skip old new [] k = []"
| "replace_skip old new (c # cs) k =
     (if 0 < k then replace_skip old new cs (k - 1)
      else if startswith (c # cs) old then new @ replace_skip old new cs (length old - 1)
      else c # replace_skip old new cs 0)"

definition replace :: "string \<Rightarrow> string \<Rightarrow> string \<Rightarrow> string" where
  "replace s old new = replace_skip old new s 0"

text \<open>\<open>sep.join(xs)\<close> and \<open>s.split()\<close> (split on runs of whitespace, no empty words).\<close>

fun join :: "string \<Rightarrow> string list \<Rightarrow> string" where
  "join sep [] = []"
| "join sep [x] = x"
| "join sep (x # y # ys) = x @ sep @ join sep (y # ys)"

primrec split_acc :: "string \<Rightarrow> string \<Rightarrow> string list" where
  "split_acc [] w = (if w = [] then [] else [rev w])"
| "split_acc (c # cs) w =
     (if isspace c then (if w = [] then split_acc cs [] else rev w # split_acc cs [])
      else split_acc cs (c # w))"

definition split_str :: "string \<Rightarrow> string list" where
  "split_str s = split_acc s []"

section \<open>Regular expressions\<close>

text \<open>
  The patterns of the tools are written in the syntax tree below and run by a
  backtracking matcher that tries the alternatives in the order of Python's \<open>re\<close>:
  a greedy repetition takes one more character before it tries to stop, a lazy one
  tries to stop first, an optional group is tried before it is skipped, and the first
  complete match wins.  All patterns of the tools that contain \<open>.\<close> are compiled with
  \<open>re.DOTALL\<close>, so \<open>AnyC\<close> accepts every character; \<open>Bol\<close> is \<open>^\<close> under
  \<open>re.MULTILINE\<close>, \<open>Eos\<close> is \<open>\Z\<close>, \<open>WordB\<close> is \<open>\b\<close>.  \<open>Rep c n g\<close> is the class \<open>c\<close>
  repeated \<open>n\<close> times or more, greedy if \<open>g\<close> holds and lazy otherwise.
\<close>

datatype cclass = AnyC | WordC | DigitC

fun cmatch :: "cclass \<Rightarrow> char \<Rightarrow> bool" where
  "cmatch AnyC c = True"
| "cmatch WordC c = isword c"
| "cmatch DigitC c = isdigit c"

datatype re =
    Lit string
  | One cclass
  | Rep cclass nat bool
  | Seq re re
  | Alt re re
  | Opt re
  | Grp nat re
  | Ahead re
  | NotAhead re
  | Bol
  | Eos
  | WordB

type_synonym groups = "nat \<Rightarrow> (nat \<times> nat) option"

type_synonym cont = "nat \<Rightarrow> groups \<Rightarrow> (nat \<times> groups) option"

text \<open>
  \<open>rep c g n cs i k\<close> runs a repetition on the rest \<open>cs\<close> of the subject, which begins
  at index \<open>i\<close>; \<open>k\<close> continues the match from the index where the repetition stops.
\<close>

primrec rep :: "cclass \<Rightarrow> bool \<Rightarrow> string \<Rightarrow> nat \<Rightarrow> nat \<Rightarrow> (nat \<Rightarrow> 'a option) \<Rightarrow> 'a option" where
  "rep c g [] n i k = (if n = 0 then k i else None)"
| "rep c g (x # xs) n i k =
     (if 0 < n then (if cmatch c x then rep c g xs (n - 1) (Suc i) k else None)
      else if g then
        (case (if cmatch c x then rep c g xs 0 (Suc i) k else None) of
           Some r \<Rightarrow> Some r
         | None \<Rightarrow> k i)
      else
        (case k i of
           Some r \<Rightarrow> Some r
         | None \<Rightarrow> (if cmatch c x then rep c g xs 0 (Suc i) k else None)))"

definition word_at :: "string \<Rightarrow> nat \<Rightarrow> bool" where
  "word_at s i = (i < length s \<and> isword (s ! i))"

definition boundary :: "string \<Rightarrow> nat \<Rightarrow> bool" where
  "boundary s i = ((0 < i \<and> word_at s (i - 1)) \<noteq> word_at s i)"

definition line_start :: "string \<Rightarrow> nat \<Rightarrow> bool" where
  "line_start s i = (i = 0 \<or> (i \<le> length s \<and> s ! (i - 1) = CHR ''\<newline>''))"

definition accept :: cont where
  "accept j g = Some (j, g)"

primrec mrun :: "re \<Rightarrow> string \<Rightarrow> nat \<Rightarrow> groups \<Rightarrow> cont \<Rightarrow> (nat \<times> groups) option" where
  "mrun (Lit w) s i g k = (if startswith (drop i s) w then k (i + length w) g else None)"
| "mrun (One c) s i g k = (if i < length s \<and> cmatch c (s ! i) then k (Suc i) g else None)"
| "mrun (Rep c n gr) s i g k = rep c gr (drop i s) n i (\<lambda>j. k j g)"
| "mrun (Seq a b) s i g k = mrun a s i g (\<lambda>j g'. mrun b s j g' k)"
| "mrun (Alt a b) s i g k = (case mrun a s i g k of Some r \<Rightarrow> Some r | None \<Rightarrow> mrun b s i g k)"
| "mrun (Opt a) s i g k = (case mrun a s i g k of Some r \<Rightarrow> Some r | None \<Rightarrow> k i g)"
| "mrun (Grp n a) s i g k = mrun a s i g (\<lambda>j g'. k j (g'(n := Some (i, j))))"
| "mrun (Ahead a) s i g k =
     (case mrun a s i g accept of Some (j, g') \<Rightarrow> k i g' | None \<Rightarrow> None)"
| "mrun (NotAhead a) s i g k =
     (case mrun a s i g accept of Some r \<Rightarrow> None | None \<Rightarrow> k i g)"
| "mrun Bol s i g k = (if line_start s i then k i g else None)"
| "mrun Eos s i g k = (if i = length s then k i g else None)"
| "mrun WordB s i g k = (if boundary s i then k i g else None)"

text \<open>A match object: where the match starts and ends, and the spans of its groups.\<close>

record rmatch =
  m_start :: nat
  m_end :: nat
  m_groups :: groups

definition match_at :: "re \<Rightarrow> string \<Rightarrow> nat \<Rightarrow> rmatch option" where
  "match_at r s i =
     (case mrun r s i (\<lambda>n. None) accept of
        None \<Rightarrow> None
      | Some (j, g) \<Rightarrow> Some \<lparr>m_start = i, m_end = j, m_groups = g\<rparr>)"

text \<open>\<open>match.group(n)\<close>: \<open>None\<close> when the group took no part in the match.\<close>

definition group_str :: "string \<Rightarrow> rmatch \<Rightarrow> nat \<Rightarrow> string option" where
  "group_str s mt n =
     (case m_groups mt n of
        None \<Rightarrow> None
      | Some (a, b) \<Rightarrow> Some (take (b - a) (drop a s)))"

definition group0 :: "string \<Rightarrow> rmatch \<Rightarrow> string" where
  "group0 s mt = take (m_end mt - m_start mt) (drop (m_start mt) s)"

text \<open>\<open>re.search\<close>: the match at the leftmost index that has one.\<close>

primrec first_match :: "re \<Rightarrow> string \<Rightarrow> nat list \<Rightarrow> rmatch option" where
  "first_match r s [] = None"
| "first_match r s (p # ps) =
     (case match_at r s p of Some mt \<Rightarrow> Some mt | None \<Rightarrow> first_match r s ps)"

definition re_search :: "re \<Rightarrow> string \<Rightarrow> rmatch option" where
  "re_search r s = first_match r s [0..<Suc (length s)]"

text \<open>\<open>re.match\<close>: a match at index 0 only.\<close>

definition re_match :: "re \<Rightarrow> string \<Rightarrow> rmatch option" where
  "re_match r s = match_at r s 0"

text \<open>
  \<open>re.finditer\<close>: the matches from left to right, each search starting where the last
  match ended.  No pattern of the tools matches the empty string, so a match always
  ends after the index it starts at; \<open>nxt\<close> is the index the next match may start at.
\<close>

primrec scan :: "re \<Rightarrow> string \<Rightarrow> nat list \<Rightarrow> nat \<Rightarrow> rmatch list" where
  "scan r s [] nxt = []"
| "scan r s (p # ps) nxt =
     (if p < nxt then scan r s ps nxt
      else (case match_at r s p of
              None \<Rightarrow> scan r s ps nxt
            | Some mt \<Rightarrow> mt # scan r s ps (max (m_end mt) (Suc p))))"

definition finditer :: "re \<Rightarrow> string \<Rightarrow> rmatch list" where
  "finditer r s = scan r s [0..<Suc (length s)] 0"

text \<open>\<open>re.sub(pattern, f, s)\<close> with a function \<open>f\<close> of the match.\<close>

primrec sub_build :: "string \<Rightarrow> (rmatch \<Rightarrow> string) \<Rightarrow> rmatch list \<Rightarrow> nat \<Rightarrow> string" where
  "sub_build s f [] pos = drop pos s"
| "sub_build s f (mt # ms) pos =
     take (m_start mt - pos) (drop pos s) @ f mt @ sub_build s f ms (m_end mt)"

definition re_sub :: "re \<Rightarrow> (rmatch \<Rightarrow> string) \<Rightarrow> string \<Rightarrow> string" where
  "re_sub r f s = sub_build s f (finditer r s) 0"

text \<open>A pattern written as a sequence of parts.\<close>

fun seq :: "re list \<Rightarrow> re" where
  "seq [] = Lit []"
| "seq [r] = r"
| "seq (r # rs) = Seq r (seq rs)"

section \<open>Section extractor (extract-rule-section.py)\<close>

text \<open>
  \<open>extract_section\<close> writes the section name into its patterns as it is, so the name is
  read as a piece of a regular expression.  \<open>name_re\<close> is that reading for the names
  whose characters are literals or the dot (\<open>modelled_name\<close>); other operators of the
  pattern syntax in a name are outside this embedding.  On a name without any such
  character (\<open>plain_name\<close>) the piece matches the name itself.
\<close>

definition special :: "char \<Rightarrow> bool" where
  "special c = (c \<in> set ''.^$*+?{}[]|()'' \<or> c = CHR 0x5C)"

definition plain_name :: "string \<Rightarrow> bool" where
  "plain_name name = (\<forall>c \<in> set name. code c < 128 \<and> \<not> special c)"

definition modelled_name :: "string \<Rightarrow> bool" where
  "modelled_name name = (\<forall>c \<in> set name. code c < 128 \<and> (special c \<longrightarrow> c = CHR ''.''))"

primrec name_re :: "string \<Rightarrow> re" where
  "name_re [] = Lit []"
| "name_re (c # cs) = Seq (if c = CHR ''.'' then One AnyC else Lit [c]) (name_re cs)"

definition start_marker :: "string \<Rightarrow> string" where
  "start_marker name = ''<!-- EXTRACT:'' @ name @ '':start -->''"

definition end_marker :: "string \<Rightarrow> string" where
  "end_marker name = ''<!-- EXTRACT:'' @ name @ '':end -->''"

definition marker_pattern :: "string \<Rightarrow> re" where
  "marker_pattern name =
     seq [Lit ''<!-- EXTRACT:'', name_re name, Lit '':start -->'',
          Grp 1 (Rep AnyC 0 False),
          Lit ''<!-- EXTRACT:'', name_re name, Lit '':end -->'']"

definition section_name_upper :: "string \<Rightarrow> string" where
  "section_name_upper name = replace (upper name) ''-'' ''_''"

definition section_pattern :: "string \<Rightarrow> re" where
  "section_pattern name =
     seq [Bol, Lit ''## '', name_re (section_name_upper name), Lit ''\<newline>'',
          Grp 1 (Rep AnyC 0 False),
          Ahead (Alt (Seq Bol (Lit ''##'')) Eos)]"

definition extract_section :: "string \<Rightarrow> string \<Rightarrow> string option" where
  "extract_section content name =
     (case re_search (marker_pattern name) content of
        Some mt \<Rightarrow> map_option strip (group_str content mt 1)
      | None \<Rightarrow>
          (case re_search (section_pattern name) content of
             Some mt \<Rightarrow> map_option strip (group_str content mt 1)
           | None \<Rightarrow> None))"

section \<open>Bundler: task analysis (rule-bundler.py)\<close>

record task_context =
  action :: string
  languages :: "string list"
  categories :: "string list"
  ctx_keywords :: "string list"

text \<open>\<open>any(p in task_lower for p in patterns)\<close>.\<close>

definition any_in :: "string list \<Rightarrow> string \<Rightarrow> bool" where
  "any_in patterns task_lower = list_ex (\<lambda>p. py_in p task_lower) patterns"

definition language_patterns :: "(string \<times> string list) list" where
  "language_patterns =
     [(''typescript'', [''typescript'', ''ts'', ''tsx'']),
      (''javascript'', [''javascript'', ''js'', ''jsx'']),
      (''python'', [''python'', ''py'']),
      (''csharp'', [''c#'', ''csharp'', ''dotnet'', ''.net'']),
      (''go'', [''go'', ''golang'']),
      (''java'', [''java'']),
      (''ruby'', [''ruby'', ''rb''])]"

definition category_patterns :: "(string \<times> string list) list" where
  "category_patterns =
     [(''test-naming'', [''test'', ''testing'', ''spec'', ''unit test'']),
      (''code-quality'', [''quality'', ''clean code'', ''refactor'', ''code review'']),
      (''security'', [''security'', ''secure'', ''vulnerability'', ''owasp'']),
      (''git-workflow'', [''git'', ''commit'', ''branch'', ''pull request'', ''pr''])]"

text \<open>The keyword pattern \<open>\b\w{4,}\b\<close>; \<open>re.findall\<close> of a pattern without groups
  returns the matched texts.\<close>

definition keyword_pattern :: re where
  "keyword_pattern = seq [WordB, Rep WordC 4 True, WordB]"

definition findall0 :: "re \<Rightarrow> string \<Rightarrow> string list" where
  "findall0 r s = map (group0 s) (finditer r s)"

definition analyze_task :: "string \<Rightarrow> task_context" where
  "analyze_task task =
     (let task_lower = lower task in
      \<lparr>action =
         (if any_in [''review'', ''check'', ''validate'', ''audit''] task_lower then ''review''
          else if any_in [''generate'', ''create'', ''write'', ''implement''] task_lower
            then ''generate''
          else if any_in [''fix'', ''repair'', ''correct'', ''update''] task_lower then ''fix''
          else if any_in [''learn'', ''understand'', ''explain''] task_lower then ''learn''
          else ''unknown''),
       languages = map fst (filter (\<lambda>(lang, patterns). any_in patterns task_lower)
                              language_patterns),
       categories = map fst (filter (\<lambda>(cat, patterns). any_in patterns task_lower)
                               category_patterns),
       ctx_keywords = filter (\<lambda>k. k \<notin> set [''that'', ''this'', ''with'', ''from'', ''have''])
                    (findall0 keyword_pattern task_lower)\<rparr>)"

definition determine_sections_for_task :: "string \<Rightarrow> string list" where
  "determine_sections_for_task task =
     (let task_lower = lower task in
      if py_in ''review'' task_lower \<or> py_in ''check'' task_lower
        then [''RULE_SUMMARY'', ''MUST_NOT_DO'', ''antipatterns'']
      else if py_in ''generate'' task_lower \<or> py_in ''create'' task_lower
        then [''RULE_SUMMARY'', ''MUST_FOLLOW'', ''requirements'', ''good_examples'']
      else if py_in ''fix'' task_lower
        then [''RULE_SUMMARY'', ''antipatterns'', ''good_examples'']
      else if py_in ''learn'' task_lower \<or> py_in ''explain'' task_lower
        then [''RULE_SUMMARY'', ''CONTEXT_AND_RATIONALE'']
      else [''RULE_SUMMARY'', ''requirements'', ''antipatterns''])"

subsection \<open>Vocabulary for the statements about \<open>extract_section\<close>\<close>

text \<open>
  The heading line that the fallback looks for, a position where that line stands at
  the start of a line, and a position where the captured text must stop: the end of
  the document, or the start of a line that begins with \<open>##\<close>.
\<close>

definition heading_line :: "string \<Rightarrow> string" where
  "heading_line name = ''## '' @ section_name_upper name @ ''\<newline>''"

definition heading_at :: "string \<Rightarrow> string \<Rightarrow> nat \<Rightarrow> bool" where
  "heading_at name s h = (line_start s h \<and> startswith (drop h s) (heading_line name))"

definition section_stop :: "string \<Rightarrow> nat \<Rightarrow> bool" where
  "section_stop s j = (j = length s \<or> (line_start s j \<and> startswith (drop j s) ''##''))"

subsection \<open>Continuations that occur in the proofs about \<open>extract_section\<close>\<close>

definition marker_tail :: "string \<Rightarrow> string \<Rightarrow> nat \<Rightarrow> nat \<Rightarrow> (nat \<times> groups) option" where
  "marker_tail e s q j =
     (if startswith (drop j s) e
      then Some (j + length e, (\<lambda>n. None)(1 := Some (q, j))) else None)"

definition stop_tail :: "string \<Rightarrow> nat \<Rightarrow> nat \<Rightarrow> (nat \<times> groups) option" where
  "stop_tail s q j =
     (if section_stop s j then Some (j, (\<lambda>n. None)(1 := Some (q, j))) else None)"

section \<open>Decimal numbers\<close>

text \<open>
  \<open>int(s)\<close> on a string of decimal digits, \<open>str(n)\<close> for a natural number and the format
  \<open>{n:03d}\<close>, which pads with zeros to three digits and never shortens.  Identifier
  numbers are unbounded integers, as in Python; the interpreter's limit on the length of a
  decimal conversion is not modelled.
\<close>

definition digit_val :: "char \<Rightarrow> nat" where
  "digit_val c = code c - 48"

definition int_of_digits :: "string \<Rightarrow> nat" where
  "int_of_digits s = foldl (\<lambda>a c. 10 * a + digit_val c) 0 s"

definition digit_char :: "nat \<Rightarrow> char" where
  "digit_char d = char_of (48 + d)"

fun str_nat :: "nat \<Rightarrow> string" where
  "str_nat n = (if n < 10 then [digit_char n] else str_nat (n div 10) @ [digit_char (n mod 10)])"

definition fmt03 :: "nat \<Rightarrow> string" where
  "fmt03 n = replicate (3 - length (str_nat n)) (CHR ''0'') @ str_nat n"

section \<open>Validator (validate-rule.py)\<close>

text \<open>
  \<open>re.findall\<close> of a pattern with one group returns the texts of that group, the empty
  string for a group that took no part in a match.
\<close>

definition findall1 :: "re \<Rightarrow> string \<Rightarrow> string list" where
  "findall1 r s = map (\<lambda>mt. case group_str s mt 1 of None \<Rightarrow> [] | Some t \<Rightarrow> t) (finditer r s)"

text \<open>The pattern \<open>\*\*\[(REQ\d+)\]\*\*\<close>, and the same for \<open>ANT\<close>.\<close>

definition id_pattern :: "string \<Rightarrow> re" where
  "id_pattern prefix = seq [Lit ''**['', Grp 1 (Seq (Lit prefix) (Rep DigitC 1 True)), Lit '']**'']"

text \<open>The pattern \<open>PREFIX(\d+)\<close> that \<open>_check_sequential_ids\<close> matches at the start of an
  identifier; an identifier that does not match contributes no number.\<close>

definition id_number_pattern :: "string \<Rightarrow> re" where
  "id_number_pattern prefix = Seq (Lit prefix) (Grp 1 (Rep DigitC 1 True))"

definition id_numbers :: "string \<Rightarrow> string list \<Rightarrow> nat list" where
  "id_numbers prefix ids =
     concat (map (\<lambda>id_str.
        case re_match (id_number_pattern prefix) id_str of
          None \<Rightarrow> []
        | Some mt \<Rightarrow> (case group_str id_str mt 1 of None \<Rightarrow> [] | Some t \<Rightarrow> [int_of_digits t]))
      ids)"

definition sequence_warning :: "string \<Rightarrow> nat \<Rightarrow> nat \<Rightarrow> string" where
  "sequence_warning prefix i num =
     prefix @ '' IDs are not sequential. Expected '' @ prefix @ fmt03 i
       @ '', found '' @ prefix @ fmt03 num"

text \<open>The loop over \<open>enumerate(numbers, 1)\<close>: the first index whose number differs
  from it, with that number; the loop breaks there.\<close>

fun first_gap :: "nat \<Rightarrow> nat list \<Rightarrow> (nat \<times> nat) option" where
  "first_gap i [] = None"
| "first_gap i (num # numbers) = (if num \<noteq> i then Some (i, num) else first_gap (Suc i) numbers)"

text \<open>The validator collects its warnings in a list; the functions below take the list
  and return it extended.\<close>

definition check_sequential_ids :: "string list \<Rightarrow> string \<Rightarrow> string list \<Rightarrow> string list" where
  "check_sequential_ids ids prefix warnings =
     (if ids = [] then warnings
      else (case first_gap 1 (sort (id_numbers prefix ids)) of
              None \<Rightarrow> warnings
            | Some (i, num) \<Rightarrow> warnings @ [sequence_warning prefix i num]))"

definition good_heading_pattern :: re where
  "good_heading_pattern = Seq (Lit ''### '') (Grp 1 (Seq (Lit ''GOOD_EXAMPLE_'') (Rep DigitC 1 True)))"

definition bad_heading_pattern :: re where
  "bad_heading_pattern = Seq (Lit ''### '') (Grp 1 (Seq (Lit ''BAD_EXAMPLE_'') (Rep DigitC 1 True)))"

definition example_warnings :: "string \<Rightarrow> string list" where
  "example_warnings content =
     (if length (findall1 good_heading_pattern content) < 2
      then [''Should have at least 2 GOOD_EXAMPLE sections''] else [])
     @ (if length (findall1 bad_heading_pattern content) < 1
        then [''Should have at least 1 BAD_EXAMPLE section''] else [])"

definition validate_id_formats :: "string \<Rightarrow> string list \<Rightarrow> string list" where
  "validate_id_formats content warnings =
     (let req_ids = findall1 (id_pattern ''REQ'') content;
          warnings1 = check_sequential_ids req_ids ''REQ'' warnings;
          ant_ids = findall1 (id_pattern ''ANT'') content;
          warnings2 = check_sequential_ids ant_ids ''ANT'' warnings1
      in warnings2 @ example_warnings content)"

subsection \<open>\<open>fix_common_issues\<close>\<close>

text \<open>The files are a map from paths to texts; reading a path that has no file raises.\<close>

datatype py_error =
  FileNotFoundError | YAMLError | AttributeError | KeyError | TypeError | ValueError
  | ModuleNotFoundError

type_synonym files = "string \<Rightarrow> string option"

definition group1 :: "string \<Rightarrow> rmatch \<Rightarrow> string" where
  "group1 s mt = (case group_str s mt 1 of None \<Rightarrow> [] | Some t \<Rightarrow> t)"

definition pad1_pattern :: "string \<Rightarrow> re" where
  "pad1_pattern prefix = seq [Lit (''**['' @ prefix), Grp 1 (One DigitC), Lit '']**'']"

definition pad2_pattern :: "string \<Rightarrow> re" where
  "pad2_pattern prefix =
     seq [Lit (''**['' @ prefix), Grp 1 (Seq (One DigitC) (One DigitC)), Lit '']**'']"

definition old_heading_pattern :: "string \<Rightarrow> re" where
  "old_heading_pattern kind = Seq (Lit (''### '' @ kind @ '' Example '')) (Grp 1 (One DigitC))"

definition next_section_pattern :: re where
  "next_section_pattern = Seq (Lit ''\<newline>### '') (NotAhead (Lit ''MUST_FOLLOW''))"

definition fix_ids :: "string \<Rightarrow> string" where
  "fix_ids content =
     (let c1 = re_sub (pad1_pattern ''REQ'') (\<lambda>mt. ''**[REQ00'' @ group1 content mt @ '']**'') content;
          c2 = re_sub (pad2_pattern ''REQ'') (\<lambda>mt. ''**[REQ0'' @ group1 c1 mt @ '']**'') c1;
          c3 = re_sub (pad1_pattern ''ANT'') (\<lambda>mt. ''**[ANT00'' @ group1 c2 mt @ '']**'') c2;
          c4 = re_sub (pad2_pattern ''ANT'') (\<lambda>mt. ''**[ANT0'' @ group1 c3 mt @ '']**'') c3
      in c4)"

definition fix_examples :: "string \<Rightarrow> string" where
  "fix_examples content =
     (let c1 = re_sub (old_heading_pattern ''Good'')
                 (\<lambda>mt. ''### GOOD_EXAMPLE_00'' @ group1 content mt) content;
          c2 = re_sub (old_heading_pattern ''Bad'')
                 (\<lambda>mt. ''### BAD_EXAMPLE_00'' @ group1 c1 mt) c1
      in c2)"

definition add_markers :: "string \<Rightarrow> string" where
  "add_markers content =
     (if py_in ''## MUST_FOLLOW'' content \<and> \<not> py_in ''<!-- EXTRACT:requirements:start -->'' content
      then
        (let c1 = replace content ''### MUST_FOLLOW\<newline>''
                    ''### MUST_FOLLOW\<newline><!-- EXTRACT:requirements:start -->\<newline>''
         in (case re_search next_section_pattern c1 of
               None \<Rightarrow> c1
             | Some mt \<Rightarrow> take (m_start mt) c1 @ ''<!-- EXTRACT:requirements:end -->\<newline>''
                            @ drop (m_start mt) c1))
      else content)"

text \<open>The result is the returned flag and the files after the call; the file is written
  only when the text changed.\<close>

definition fix_common_issues :: "files \<Rightarrow> string \<Rightarrow> py_error + (bool \<times> files)" where
  "fix_common_issues fs rule_file =
     (case fs rule_file of
        None \<Rightarrow> Inl FileNotFoundError
      | Some original \<Rightarrow>
          (let content = add_markers (fix_examples (fix_ids original))
           in if content \<noteq> original then Inr (True, fs(rule_file := Some content))
              else Inr (False, fs)))"

subsection \<open>Vocabulary for the statement about the sequence check\<close>

text \<open>
  What one family of identifiers contributes to the warnings, given its sorted numbers
  \<open>ns\<close>: nothing when they are \<open>1, 2, ..., n\<close>; otherwise exactly one warning, which names
  the first position \<open>i\<close> whose number is not \<open>i\<close> and the number found there.  When the
  numbers are distinct and positive, that \<open>i\<close> is the smallest number missing.
\<close>

definition family_report :: "string \<Rightarrow> nat list \<Rightarrow> string list \<Rightarrow> bool" where
  "family_report prefix ns ws =
     (if ns = [1..<Suc (length ns)] then ws = []
      else (\<exists>i \<in> {1..length ns}.
              take (i - 1) ns = [1..<i] \<and> ns ! (i - 1) \<noteq> i
            \<and> ws = [sequence_warning prefix i (ns ! (i - 1))]
            \<and> (distinct ns \<and> 0 \<notin> set ns \<longrightarrow> i \<notin> set ns \<and> (\<forall>k \<in> {1..<i}. k \<in> set ns))))"

subsection \<open>Vocabulary for the statement about \<open>fix_common_issues\<close>\<close>

text \<open>
  A document is conformant when it contains no identifier tag with one or two digits, no
  example heading in the old form, and, if it has a \<open>MUST_FOLLOW\<close> heading, the start
  marker that the fixer would otherwise insert.
\<close>

definition digit_chars :: string where
  "digit_chars = ''0123456789''"

definition unpadded_ids :: "string \<Rightarrow> string list" where
  "unpadded_ids prefix =
     map (\<lambda>d. ''**['' @ prefix @ [d] @ '']**'') digit_chars
     @ concat (map (\<lambda>d. map (\<lambda>e. ''**['' @ prefix @ [d, e] @ '']**'') digit_chars) digit_chars)"

definition old_headings :: "string list" where
  "old_headings =
     map (\<lambda>d. ''### Good Example '' @ [d]) digit_chars
     @ map (\<lambda>d. ''### Bad Example '' @ [d]) digit_chars"

definition conformant :: "string \<Rightarrow> bool" where
  "conformant content =
     ((\<forall>w \<in> set (unpadded_ids ''REQ'' @ unpadded_ids ''ANT'' @ old_headings). \<not> py_in w content)
      \<and> (py_in ''## MUST_FOLLOW'' content
           \<longrightarrow> py_in ''<!-- EXTRACT:requirements:start -->'' content))"

section \<open>Extractor: records of a rule document (extract-rule-section.py)\<close>

subsection \<open>Front matter\<close>

text \<open>
  The values that \<open>yaml.safe_load\<close> yields are modelled as far as they are \<open>None\<close>,
  booleans, integers, floating-point numbers, strings and lists of these; a front matter
  that is a mapping is a dictionary from strings to such values.  Dates and nested
  mappings are not modelled.  The YAML parser itself is a parameter \<open>load\<close> of the model:
  it maps the text of the front matter to a value, or to \<open>None\<close> when it raises.

  A floating-point number is its numeric value, which is a rational number, an infinity
  or NaN (\<open>.nan\<close> in YAML), together with the text that \<open>repr\<close> gives for it.  The model
  does not format numbers: the loader supplies the value and the text.
\<close>

datatype fvalue = FNum rat | FInf | FNegInf | FNaN

datatype yaml =
  YNone | YBool bool | YInt int | YFloat fvalue string | YStr string | YList "yaml list"

datatype front_matter = Mapping "(string \<times> yaml) list" | Scalar yaml

type_synonym loader = "string \<Rightarrow> front_matter option"

record extractor =
  e_content :: string
  e_metadata :: front_matter

text \<open>\<open>content[3:end_marker]\<close> and the constructor of \<open>RuleExtractor\<close>.\<close>

definition extract_metadata :: "loader \<Rightarrow> string \<Rightarrow> py_error + front_matter" where
  "extract_metadata load text =
     (if startswith text ''---'' then
        (case find_str text ''---'' 3 of
           Some end_pos \<Rightarrow>
             (case load (take (end_pos - 3) (drop 3 text)) of
                None \<Rightarrow> Inl YAMLError
              | Some v \<Rightarrow> Inr v)
         | None \<Rightarrow> Inr (Mapping []))
      else Inr (Mapping []))"

definition rule_extractor :: "loader \<Rightarrow> files \<Rightarrow> string \<Rightarrow> py_error + extractor" where
  "rule_extractor load fs rule_file =
     (case fs rule_file of
        None \<Rightarrow> Inl FileNotFoundError
      | Some text \<Rightarrow>
          (case extract_metadata load text of
             Inl e \<Rightarrow> Inl e
           | Inr md \<Rightarrow> Inr \<lparr>e_content = text, e_metadata = md\<rparr>))"

subsection \<open>Importing the extractor\<close>

text \<open>
  The differ and the bundler get the extractor by the statement
  \<open>from extract_rule_section import RuleExtractor\<close>, which is the first statement of the
  functions that use it and runs at each of their calls.  The statement looks for a module
  of that name in the directories of \<open>sys.path\<close>, the first of which is the directory of the
  script that was started.  The model takes the names of the files in these directories as
  the parameter \<open>path_files\<close>: the module is found when a source file of its name is among
  them, and \<open>ModuleNotFoundError\<close> is raised otherwise.  A module found under the name
  \<open>extract_rule_section\<close> is taken to be the extractor of this section.

  \<open>tools_directory\<close> lists the directory of the tools as the repository has it.  The
  extractor is the file \<open>extract-rule-section.py\<close> there; no file is called
  \<open>extract_rule_section.py\<close>.  The other directories of the path are those of the
  interpreter and its libraries, which have no module of this name.
\<close>

definition import_from :: "string list \<Rightarrow> string \<Rightarrow> py_error + unit" where
  "import_from path_files name =
     (if name @ ''.py'' \<in> set path_files then Inr () else Inl ModuleNotFoundError)"

definition tools_directory :: "string list" where
  "tools_directory =
     [''extract-rule-section.py'', ''rule-bundler.py'', ''rule-diff.py'', ''validate-rule.py'']"

subsection \<open>Requirements and anti-patterns\<close>

record requirement =
  req_id :: string
  req_text :: string
  rationale :: "string option"
  impact :: "string option"

record antipattern =
  ant_id :: string
  ant_text :: string
  why :: "string option"
  instead :: "string option"

text \<open>
  The pattern
  \<open>\*\*\[(\w+)\]\*\* (.*?)(?:\n   - Rationale: (.*?))?(?:\n   - Impact: (.*?))?(?=\n\d+\.|\Z)\<close>
  with the two labels as parameters; the anti-patterns use it with \<open>Why\<close> and \<open>Instead\<close>.
\<close>

definition item_pattern :: "string \<Rightarrow> string \<Rightarrow> re" where
  "item_pattern label1 label2 =
     seq [Lit ''**['', Grp 1 (Rep WordC 1 True), Lit '']** '', Grp 2 (Rep AnyC 0 False),
          Opt (Seq (Lit (''\<newline>   - '' @ label1 @ '': '')) (Grp 3 (Rep AnyC 0 False))),
          Opt (Seq (Lit (''\<newline>   - '' @ label2 @ '': '')) (Grp 4 (Rep AnyC 0 False))),
          Ahead (Alt (seq [Lit ''\<newline>'', Rep DigitC 1 True, Lit ''.'']) Eos)]"

text \<open>\<open>m.group(n).strip() if m.group(n) else None\<close>, and \<open>m.group(n).strip()\<close> for a group
  that always takes part.\<close>

definition opt_group :: "string \<Rightarrow> rmatch \<Rightarrow> nat \<Rightarrow> string option" where
  "opt_group s mt n =
     (case group_str s mt n of
        None \<Rightarrow> None
      | Some t \<Rightarrow> if t = [] then None else Some (strip t))"

definition the_group :: "string \<Rightarrow> rmatch \<Rightarrow> nat \<Rightarrow> string" where
  "the_group s mt n = (case group_str s mt n of None \<Rightarrow> [] | Some t \<Rightarrow> t)"

text \<open>\<open>if not req_section\<close> holds for \<open>None\<close> and for the empty string.\<close>

definition section_or :: "string \<Rightarrow> string \<Rightarrow> string \<Rightarrow> string option" where
  "section_or text name1 name2 =
     (case extract_section text name1 of
        Some t \<Rightarrow> if t = [] then extract_section text name2 else Some t
      | None \<Rightarrow> extract_section text name2)"

definition extract_requirements :: "string \<Rightarrow> requirement list" where
  "extract_requirements text =
     (case section_or text ''requirements'' ''MUST_FOLLOW'' of
        None \<Rightarrow> []
      | Some req_section \<Rightarrow>
          map (\<lambda>mt. \<lparr>req_id = the_group req_section mt 1,
                      req_text = strip (the_group req_section mt 2),
                      rationale = opt_group req_section mt 3,
                      impact = opt_group req_section mt 4\<rparr>)
            (finditer (item_pattern ''Rationale'' ''Impact'') req_section))"

definition extract_antipatterns :: "string \<Rightarrow> antipattern list" where
  "extract_antipatterns text =
     (case section_or text ''antipatterns'' ''MUST_NOT_DO'' of
        None \<Rightarrow> []
      | Some ant_section \<Rightarrow>
          map (\<lambda>mt. \<lparr>ant_id = the_group ant_section mt 1,
                      ant_text = strip (the_group ant_section mt 2),
                      why = opt_group ant_section mt 3,
                      instead = opt_group ant_section mt 4\<rparr>)
            (finditer (item_pattern ''Why'' ''Instead'') ant_section))"

subsection \<open>Examples and patterns\<close>

record example =
  ex_id :: string
  ex_title :: string
  ex_language :: string
  ex_code :: string
  ex_explanation :: string

text \<open>
  The pattern of \<open>extract_examples\<close> for the kinds \<open>good\<close> and \<open>bad\<close>, the only ones the
  tools ask for; the kind is written into the pattern in upper case and as it is.
\<close>

definition example_pattern :: "string \<Rightarrow> re" where
  "example_pattern example_type =
     seq [Lit (''### '' @ upper example_type @ ''_EXAMPLE_''), Grp 1 (Rep DigitC 1 True),
          Lit '': '', Grp 2 (Rep AnyC 0 False), Lit ''\<newline>```'', Grp 3 (Rep WordC 1 True),
          Lit ''\<newline>'', Grp 4 (Rep AnyC 0 False),
          Lit (''```\<newline>**Why this is '' @ example_type @ ''**: ''),
          Grp 5 (Rep AnyC 0 False), Ahead (Alt (Lit ''###'') Eos)]"

definition extract_examples :: "string \<Rightarrow> string \<Rightarrow> example list" where
  "extract_examples text example_type =
     map (\<lambda>mt. \<lparr>ex_id = upper example_type @ ''_EXAMPLE_'' @ the_group text mt 1,
                 ex_title = the_group text mt 2,
                 ex_language = the_group text mt 3,
                 ex_code = strip (the_group text mt 4),
                 ex_explanation = strip (the_group text mt 5)\<rparr>)
       (finditer (example_pattern example_type) text)"






section \<open>Python values of the front matter: equality and text\<close>




text \<open>\<open>str(v)\<close> and \<open>repr(v)\<close>.  The text of a string inside a list is its \<open>repr\<close>: quoted,
  with the quote, the backslash and the unprintable characters escaped.\<close>

definition hex_digit :: "nat \<Rightarrow> char" where
  "hex_digit d = (if d < 10 then char_of (48 + d) else char_of (87 + d))"

definition str_int :: "int \<Rightarrow> string" where
  "str_int i = (if i < 0 then ''-'' @ str_nat (nat (- i)) else str_nat (nat i))"

definition repr_char :: "char \<Rightarrow> char \<Rightarrow> string" where
  "repr_char q c =
     (if c = q \<or> c = CHR 0x5C then [CHR 0x5C, c]
      else if code c = 9 then [CHR 0x5C, CHR ''t'']
      else if code c = 10 then [CHR 0x5C, CHR ''n'']
      else if code c = 13 then [CHR 0x5C, CHR ''r'']
      else if code c < 32 \<or> (127 \<le> code c \<and> code c \<le> 160) \<or> code c = 173
        then [CHR 0x5C, CHR ''x'', hex_digit (code c div 16), hex_digit (code c mod 16)]
      else [c])"

definition repr_str :: "string \<Rightarrow> string" where
  "repr_str s =
     (let q = (if CHR 0x27 \<in> set s \<and> CHR 0x22 \<notin> set s then CHR 0x22 else CHR 0x27)
      in [q] @ concat (map (repr_char q) s) @ [q])"

fun py_repr :: "yaml \<Rightarrow> string" and py_repr_list :: "yaml list \<Rightarrow> string list" where
  "py_repr YNone = ''None''"
| "py_repr (YBool b) = (if b then ''True'' else ''False'')"
| "py_repr (YInt i) = str_int i"
| "py_repr (YFloat x t) = t"
| "py_repr (YStr s) = repr_str s"
| "py_repr (YList xs) = ''['' @ join '', '' (py_repr_list xs) @ '']''"
| "py_repr_list [] = []"
| "py_repr_list (x # xs) = py_repr x # py_repr_list xs"



fun dict_set :: "('k \<times> 'v) list \<Rightarrow> 'k \<Rightarrow> 'v \<Rightarrow> ('k \<times> 'v) list" where
  "dict_set [] k v = [(k, v)]"
| "dict_set ((k', v') # d) k v = (if k' = k then (k, v) # d else (k', v') # dict_set d k v)"

section \<open>Differ (rule-diff.py)\<close>






















subsection \<open>Similarity of two rules\<close>

text \<open>
  \<open>_calculate_rule_similarity\<close>: the Jaccard index of the two sets of lower-case words of
  the requirement texts.  The import of the extractor stands before the \<open>try\<close> block, so
  what it raises leaves the function.  Whatever is raised inside the \<open>try\<close> block, here by
  reading or parsing a file, is caught and gives 0.  The quotient of the two counts is a
  real number; Python rounds it to a float.
\<close>

definition requirement_words :: "string \<Rightarrow> string set" where
  "requirement_words text =
     set (split_str (lower (join '' '' (map req_text (extract_requirements text)))))"

definition jaccard :: "string set \<Rightarrow> string set \<Rightarrow> real" where
  "jaccard set1 set2 =
     (if set1 = {} \<and> set2 = {} then 0
      else (let intersection = card (set1 \<inter> set2); union = card (set1 \<union> set2)
            in if union > 0 then real intersection / real union else 0))"

definition calculate_rule_similarity ::
  "string list \<Rightarrow> loader \<Rightarrow> files \<Rightarrow> string \<Rightarrow> string \<Rightarrow> py_error + real" where
  "calculate_rule_similarity path_files load fs rule1_path rule2_path =
     (case import_from path_files ''extract_rule_section'' of
        Inl e \<Rightarrow> Inl e
      | Inr u \<Rightarrow>
     (case rule_extractor load fs rule1_path of
        Inl e \<Rightarrow> Inr 0
      | Inr ext1 \<Rightarrow>
          (case rule_extractor load fs rule2_path of
             Inl e \<Rightarrow> Inr 0
           | Inr ext2 \<Rightarrow>
               Inr (jaccard (requirement_words (e_content ext1))
                      (requirement_words (e_content ext2))))))"

subsection \<open>Vocabulary for the statements about the summary\<close>




section \<open>Bundler: building a bundle (rule-bundler.py)\<close>

text \<open>
  An entry of the rules index, the index (read from \<open>rules-index.json\<close>, in the order of
  the file), and the bundle that \<open>_build_bundle\<close> returns: the mapping under its key
  \<open>rules\<close>, from rule identifiers to the metadata and the extracted sections of a rule.
  A file is looked up under the path that the index gives relative to the rules directory.
\<close>

record rule_info =
  ri_file_path :: string
  ri_category :: string
  ri_language :: string
  ri_severity :: string
  ri_tags :: "string list"
  ri_prerequisites :: "string list"
  ri_summary :: string

type_synonym rules_index = "(string \<times> rule_info) list"

datatype section_value =
    Text "string option"
  | Requirements "requirement list"
  | Antipatterns "antipattern list"
  | Examples "example list"

record bundled_metadata =
  bm_rule_id :: string
  bm_category :: string
  bm_language :: string
  bm_severity :: string

record bundled_rule =
  br_metadata :: bundled_metadata
  br_sections :: "(string \<times> section_value) list"

type_synonym rule_bundle = "(string \<times> bundled_rule) list"

text \<open>One round of the loop over the requested sections; \<open>examples[:1] if examples else []\<close>
  is the list of the first example, if there is one.\<close>

definition add_section ::
  "string \<Rightarrow> (string \<times> section_value) list \<Rightarrow> string \<Rightarrow> (string \<times> section_value) list" where
  "add_section text secs section =
     (if section = ''RULE_SUMMARY''
        then dict_set secs ''summary'' (Text (extract_section text ''RULE_SUMMARY''))
      else if section = ''requirements'' \<or> section = ''MUST_FOLLOW''
        then dict_set secs ''requirements'' (Requirements (extract_requirements text))
      else if section = ''antipatterns'' \<or> section = ''MUST_NOT_DO''
        then dict_set secs ''antipatterns'' (Antipatterns (extract_antipatterns text))
      else if section = ''good_examples''
        then dict_set secs ''good_examples'' (Examples (take 1 (extract_examples text ''good'')))
      else if section = ''CONTEXT_AND_RATIONALE''
        then dict_set secs ''context'' (Text (extract_section text ''CONTEXT_AND_RATIONALE''))
      else secs)"

fun build_bundle_loop ::
  "loader \<Rightarrow> files \<Rightarrow> rules_index \<Rightarrow> string list \<Rightarrow> string list \<Rightarrow> rule_bundle
     \<Rightarrow> py_error + rule_bundle" where
  "build_bundle_loop load fs index [] sections rules = Inr rules"
| "build_bundle_loop load fs index (rule_id # rule_ids) sections rules =
     (case map_of index rule_id of
        None \<Rightarrow> build_bundle_loop load fs index rule_ids sections rules
      | Some info \<Rightarrow>
          (case fs (ri_file_path info) of
             None \<Rightarrow> build_bundle_loop load fs index rule_ids sections rules
           | Some text \<Rightarrow>
               (case rule_extractor load fs (ri_file_path info) of
                  Inl e \<Rightarrow> Inl e
                | Inr extractor \<Rightarrow>
                    build_bundle_loop load fs index rule_ids sections
                      (dict_set rules rule_id
                         \<lparr>br_metadata = \<lparr>bm_rule_id = rule_id, bm_category = ri_category info,
                                          bm_language = ri_language info,
                                          bm_severity = ri_severity info\<rparr>,
                          br_sections = foldl (add_section (e_content extractor)) [] sections\<rparr>))))"

text \<open>\<open>_build_bundle\<close> imports the extractor before it enters the loop.\<close>

definition build_bundle ::
  "string list \<Rightarrow> loader \<Rightarrow> files \<Rightarrow> rules_index \<Rightarrow> string list \<Rightarrow> string list
     \<Rightarrow> py_error + rule_bundle" where
  "build_bundle path_files load fs index rule_ids sections =
     (case import_from path_files ''extract_rule_section'' of
        Inl e \<Rightarrow> Inl e
      | Inr u \<Rightarrow> build_bundle_loop load fs index rule_ids sections [])"

subsection \<open>Vocabulary for the statement about the sections of a bundle\<close>

definition recognized :: "string \<Rightarrow> bool" where
  "recognized section =
     (section \<in> set [''RULE_SUMMARY'', ''requirements'', ''MUST_FOLLOW'', ''antipatterns'',
                      ''MUST_NOT_DO'', ''good_examples'', ''CONTEXT_AND_RATIONALE''])"

definition section_keys :: "string list" where
  "section_keys = [''summary'', ''requirements'', ''antipatterns'', ''good_examples'', ''context'']"

text \<open>The keys of the sections are among the five keys, and a value under
  \<open>good_examples\<close> is a list of at most one example.\<close>

definition at_most_one_example :: "section_value \<Rightarrow> bool" where
  "at_most_one_example v = (case v of Examples xs \<Rightarrow> length xs \<le> 1 | _ \<Rightarrow> False)"

definition sections_ok :: "(string \<times> section_value) list \<Rightarrow> bool" where
  "sections_ok secs =
     (set (map fst secs) \<subseteq> set section_keys
      \<and> (\<forall>(k, v) \<in> set secs. k = ''good_examples'' \<longrightarrow> at_most_one_example v))"

section \<open>Bundler: optimizing a bundle\<close>

subsection \<open>JSON values and \<open>json.dumps\<close>\<close>

text \<open>
  The values a bundle is made of, and their text under \<open>json.dumps\<close> with its default
  settings: items separated by a comma and a blank, keys followed by a colon and a blank,
  and in strings every character outside the printable ASCII range escaped.
  Floating-point numbers are not modelled.
\<close>

datatype json =
  JNull | JBool bool | JInt int | JStr string | JList "json list" | JDict "(string \<times> json) list"

definition escape_char :: "char \<Rightarrow> string" where
  "escape_char c =
     (if c = CHR 0x22 then [CHR 0x5C, CHR 0x22]
      else if c = CHR 0x5C then [CHR 0x5C, CHR 0x5C]
      else if code c = 10 then [CHR 0x5C, CHR ''n'']
      else if code c = 13 then [CHR 0x5C, CHR ''r'']
      else if code c = 9 then [CHR 0x5C, CHR ''t'']
      else if code c = 8 then [CHR 0x5C, CHR ''b'']
      else if code c = 12 then [CHR 0x5C, CHR ''f'']
      else if code c < 32 \<or> 126 < code c
        then [CHR 0x5C, CHR ''u'', CHR ''0'', CHR ''0'',
              hex_digit (code c div 16), hex_digit (code c mod 16)]
      else [c])"

definition dumps_str :: "string \<Rightarrow> string" where
  "dumps_str s = [CHR 0x22] @ concat (map escape_char s) @ [CHR 0x22]"

fun dumps :: "json \<Rightarrow> string"
  and dumps_list :: "json list \<Rightarrow> string list"
  and dumps_items :: "(string \<times> json) list \<Rightarrow> string list" where
  "dumps JNull = ''null''"
| "dumps (JBool b) = (if b then ''true'' else ''false'')"
| "dumps (JInt i) = str_int i"
| "dumps (JStr s) = dumps_str s"
| "dumps (JList xs) = ''['' @ join '', '' (dumps_list xs) @ '']''"
| "dumps (JDict kvs) = ''{'' @ join '', '' (dumps_items kvs) @ ''}''"
| "dumps_list [] = []"
| "dumps_list (x # xs) = dumps x # dumps_list xs"
| "dumps_items [] = []"
| "dumps_items ((k, v) # kvs) = (dumps_str k @ '': '' @ dumps v) # dumps_items kvs"

subsection \<open>Dictionaries as objects of a store\<close>

text \<open>
  \<open>optimize_bundle\<close> changes dictionaries that the caller's bundle and the returned bundle
  may share, so the dictionaries it can reach are objects of a store: the bundle, the
  mapping under \<open>rules\<close>, each rule and the mapping under \<open>sections\<close> of each rule.  An
  object is an ordered dictionary whose values are plain JSON values or references to
  objects; the address of an object is its index in the store, and a new object is put at
  the end.  Bundles in which a position on the path \<open>rules\<close>, rule, \<open>sections\<close> holds a
  plain value instead of an object are outside the model (reported as \<open>TypeError\<close>).
\<close>

datatype pyval = Val json | Ref nat

type_synonym pyobj = "(string \<times> pyval) list"

type_synonym store = "pyobj list"

definition obj :: "store \<Rightarrow> nat \<Rightarrow> pyobj" where
  "obj h a = (if a < length h then h ! a else [])"

text \<open>
  The JSON value that a value of the store stands for.  Following references through more
  objects than the store has means that a dictionary contains itself; then there is no
  value, and \<open>json.dumps\<close> raises \<open>ValueError\<close>.
\<close>

fun resolve :: "nat \<Rightarrow> store \<Rightarrow> pyval \<Rightarrow> json option"
  and resolve_items :: "nat \<Rightarrow> store \<Rightarrow> pyobj \<Rightarrow> (string \<times> json) list option" where
  "resolve n h (Val j) = Some j"
| "resolve 0 h (Ref a) = None"
| "resolve (Suc n) h (Ref a) = map_option JDict (resolve_items n h (obj h a))"
| "resolve_items n h [] = Some []"
| "resolve_items n h ((k, v) # kvs) =
     (case resolve n h v of
        None \<Rightarrow> None
      | Some j \<Rightarrow> (case resolve_items n h kvs of None \<Rightarrow> None | Some js \<Rightarrow> Some ((k, j) # js)))"

definition bundle_value :: "store \<Rightarrow> nat \<Rightarrow> json option" where
  "bundle_value h a = resolve (Suc (length h)) h (Ref a)"

text \<open>\<open>_estimate_tokens\<close>: a quarter of the length of the JSON text, rounded down.\<close>

definition estimate_tokens :: "store \<Rightarrow> nat \<Rightarrow> py_error + nat" where
  "estimate_tokens h a =
     (case bundle_value h a of
        None \<Rightarrow> Inl ValueError
      | Some j \<Rightarrow> Inr (length (dumps j) div 4))"

subsection \<open>\<open>optimize_bundle\<close>\<close>

text \<open>\<open>d[key]\<close> where an object is expected.\<close>

definition lookup_ref :: "store \<Rightarrow> nat \<Rightarrow> string \<Rightarrow> py_error + nat" where
  "lookup_ref h a key =
     (case map_of (obj h a) key of
        None \<Rightarrow> Inl KeyError
      | Some (Ref r) \<Rightarrow> Inr r
      | Some (Val j) \<Rightarrow> Inl TypeError)"

text \<open>\<open>optimized['rules'][rule_id]\<close> and \<open>optimized['rules'][rule_id]['sections']\<close>.\<close>

definition rule_of :: "store \<Rightarrow> nat \<Rightarrow> string \<Rightarrow> py_error + nat" where
  "rule_of h optimized rule_id =
     (case lookup_ref h optimized ''rules'' of
        Inl e \<Rightarrow> Inl e
      | Inr rules \<Rightarrow> lookup_ref h rules rule_id)"

definition sections_of :: "store \<Rightarrow> nat \<Rightarrow> string \<Rightarrow> py_error + nat" where
  "sections_of h optimized rule_id =
     (case rule_of h optimized rule_id of
        Inl e \<Rightarrow> Inl e
      | Inr rule \<Rightarrow> lookup_ref h rule ''sections'')"

definition del_key :: "pyobj \<Rightarrow> string \<Rightarrow> pyobj" where
  "del_key d key = filter (\<lambda>kv. fst kv \<noteq> key) d"

text \<open>
  The first two loops: delete the key from the sections of one rule after the other, and
  return as soon as the estimate is within the budget.  The result is the store and
  whether the function has returned.
\<close>

fun drop_stage ::
  "string \<Rightarrow> int \<Rightarrow> nat \<Rightarrow> string list \<Rightarrow> store \<Rightarrow> py_error + (store \<times> bool)" where
  "drop_stage key max_tokens optimized [] h = Inr (h, False)"
| "drop_stage key max_tokens optimized (rule_id # rule_ids) h =
     (case sections_of h optimized rule_id of
        Inl e \<Rightarrow> Inl e
      | Inr sec \<Rightarrow>
          if key \<in> set (map fst (obj h sec)) then
            (let h' = h[sec := del_key (obj h sec) key] in
             case estimate_tokens h' optimized of
               Inl e \<Rightarrow> Inl e
             | Inr current_tokens \<Rightarrow>
                 if int current_tokens \<le> max_tokens then Inr (h', True)
                 else drop_stage key max_tokens optimized rule_ids h')
          else drop_stage key max_tokens optimized rule_ids h)"

text \<open>\<open>len(v)\<close> and \<open>v[:3]\<close>; slicing a dictionary raises.\<close>

definition py_len :: "store \<Rightarrow> pyval \<Rightarrow> py_error + nat" where
  "py_len h v =
     (case v of
        Val (JList xs) \<Rightarrow> Inr (length xs)
      | Val (JStr s) \<Rightarrow> Inr (length s)
      | Val (JDict d) \<Rightarrow> Inr (length d)
      | Val j \<Rightarrow> Inl TypeError
      | Ref a \<Rightarrow> Inr (length (obj h a)))"

definition slice3 :: "pyval \<Rightarrow> py_error + pyval" where
  "slice3 v =
     (case v of
        Val (JList xs) \<Rightarrow> Inr (Val (JList (take 3 xs)))
      | Val (JStr s) \<Rightarrow> Inr (Val (JStr (take 3 s)))
      | _ \<Rightarrow> Inl TypeError)"

text \<open>The sections that the third loop keeps of the sections \<open>sections\<close> of a rule.\<close>

definition new_sections :: "store \<Rightarrow> pyobj \<Rightarrow> py_error + pyobj" where
  "new_sections h sections =
     (let new1 = (case map_of sections ''summary'' of
                    None \<Rightarrow> []
                  | Some v \<Rightarrow> [(''summary'', v)]);
          requirements_branch =
            (case map_of sections ''requirements'' of
               None \<Rightarrow> Inr new1
             | Some v \<Rightarrow>
                 (case slice3 v of Inl e \<Rightarrow> Inl e | Inr w \<Rightarrow> Inr (new1 @ [(''requirements'', w)])))
      in case map_of sections ''antipatterns'' of
           None \<Rightarrow> requirements_branch
         | Some v \<Rightarrow>
             (case py_len h v of
                Inl e \<Rightarrow> Inl e
              | Inr n \<Rightarrow>
                  if 0 < n
                  then (case slice3 v of
                          Inl e \<Rightarrow> Inl e
                        | Inr w \<Rightarrow> Inr (new1 @ [(''antipatterns'', w)]))
                  else requirements_branch))"

text \<open>The third loop: each rule gets a new dictionary of sections, which is a new object;
  the rule object is changed to refer to it.\<close>

fun collapse_stage :: "nat \<Rightarrow> string list \<Rightarrow> store \<Rightarrow> py_error + store" where
  "collapse_stage optimized [] h = Inr h"
| "collapse_stage optimized (rule_id # rule_ids) h =
     (case sections_of h optimized rule_id of
        Inl e \<Rightarrow> Inl e
      | Inr sec \<Rightarrow>
          (case new_sections h (obj h sec) of
             Inl e \<Rightarrow> Inl e
           | Inr new \<Rightarrow>
               (case rule_of h optimized rule_id of
                  Inl e \<Rightarrow> Inl e
                | Inr rule \<Rightarrow>
                    collapse_stage optimized rule_ids
                      ((h @ [new])[rule := dict_set (obj h rule) ''sections'' (Ref (length h))]))))"

text \<open>\<open>for rule_id in optimized['rules']\<close>: the keys of the object under \<open>rules\<close>.\<close>

definition rule_ids_of :: "store \<Rightarrow> nat \<Rightarrow> py_error + string list" where
  "rule_ids_of h optimized =
     (case lookup_ref h optimized ''rules'' of
        Inl e \<Rightarrow> Inl e
      | Inr rules \<Rightarrow> Inr (map fst (obj h rules)))"

text \<open>
  \<open>optimize_bundle\<close>: the result is the store after the call and the address of the bundle
  that is returned.  \<open>bundle.copy()\<close> makes a new object with the entries of the bundle:
  the values that are references still refer to the same objects.
\<close>

definition optimize_bundle :: "store \<Rightarrow> nat \<Rightarrow> int \<Rightarrow> py_error + (store \<times> nat)" where
  "optimize_bundle h bundle max_tokens =
     (case estimate_tokens h bundle of
        Inl e \<Rightarrow> Inl e
      | Inr current_tokens \<Rightarrow>
          if int current_tokens \<le> max_tokens then Inr (h, bundle)
          else
            (let optimized = length h; h0 = h @ [obj h bundle] in
             case rule_ids_of h0 optimized of
               Inl e \<Rightarrow> Inl e
             | Inr ids1 \<Rightarrow>
            (case drop_stage ''good_examples'' max_tokens optimized ids1 h0 of
               Inl e \<Rightarrow> Inl e
             | Inr (h1, returned1) \<Rightarrow>
                 if returned1 then Inr (h1, optimized)
                 else
            (case rule_ids_of h1 optimized of
               Inl e \<Rightarrow> Inl e
             | Inr ids2 \<Rightarrow>
            (case drop_stage ''context'' max_tokens optimized ids2 h1 of
               Inl e \<Rightarrow> Inl e
             | Inr (h2, returned2) \<Rightarrow>
                 if returned2 then Inr (h2, optimized)
                 else
            (case rule_ids_of h2 optimized of
               Inl e \<Rightarrow> Inl e
             | Inr ids3 \<Rightarrow>
            (case collapse_stage optimized ids3 h2 of
               Inl e \<Rightarrow> Inl e
             | Inr h3 \<Rightarrow> Inr (h3, optimized))))))))"

section \<open>Differ: comparing the rules of a category\<close>

text \<open>
  \<open>compare_category\<close> takes the rules of a category (and of a language, if one is given)
  in the order of the index, computes the similarity of every pair in the order of the two
  nested loops, and sorts the comparisons by falling similarity; the sort is stable.  An
  error that leaves \<open>_calculate_rule_similarity\<close> ends the call.
\<close>

record comparison =
  cmp_rule1 :: string
  cmp_rule2 :: string
  cmp_similarity :: real
  cmp_both_severity :: bool

fun pairs :: "'a list \<Rightarrow> ('a \<times> 'a) list" where
  "pairs [] = []"
| "pairs (x # xs) = map (Pair x) xs @ pairs xs"

fun compare_pairs ::
  "string list \<Rightarrow> loader \<Rightarrow> files \<Rightarrow> ((string \<times> rule_info) \<times> (string \<times> rule_info)) list
     \<Rightarrow> py_error + comparison list" where
  "compare_pairs path_files load fs [] = Inr []"
| "compare_pairs path_files load fs (((id1, info1), (id2, info2)) # ps) =
     (case calculate_rule_similarity path_files load fs (ri_file_path info1) (ri_file_path info2) of
        Inl e \<Rightarrow> Inl e
      | Inr similarity \<Rightarrow>
          (case compare_pairs path_files load fs ps of
             Inl e \<Rightarrow> Inl e
           | Inr comparisons \<Rightarrow>
               Inr (\<lparr>cmp_rule1 = id1, cmp_rule2 = id2, cmp_similarity = similarity,
                     cmp_both_severity = (ri_severity info1 = ri_severity info2)\<rparr>
                    # comparisons)))"

definition compare_category ::
  "string list \<Rightarrow> loader \<Rightarrow> files \<Rightarrow> rules_index \<Rightarrow> string \<Rightarrow> string option
     \<Rightarrow> py_error + comparison list" where
  "compare_category path_files load fs index category language =
     (let rules = filter (\<lambda>(rule_id, info). ri_category info = category
                             \<and> (language = None \<or> language = Some (ri_language info))) index
      in case compare_pairs path_files load fs (pairs rules) of
           Inl e \<Rightarrow> Inl e
         | Inr comparisons \<Rightarrow> Inr (sort_key (\<lambda>x. - cmp_similarity x) comparisons))"

section \<open>Facts about strings and the matcher\<close>

lemma startswith_append_iff:
  "startswith s (a @ b) = (startswith s a \<and> startswith (drop (length a) s) b)"
  by (induction a arbitrary: s) (auto split: list.splits)

lemma startswith_iff: "startswith s w = (\<exists>t. s = w @ t)"
  by (induction w arbitrary: s) (auto split: list.splits)

lemma startswith_self_append [simp]: "startswith (w @ t) w"
  by (simp add: startswith_iff)

lemma special_dot: "special (CHR ''.'')"
  by (simp add: special_def)

lemma m_name_re_plain:
  "plain_name name \<Longrightarrow>
   mrun (name_re name) s i g k = (if startswith (drop i s) name then k (i + length name) g else None)"
proof (induction name arbitrary: i)
  case Nil
  then show ?case by simp
next
  case (Cons c cs)
  from Cons.prems have c: "c \<noteq> CHR ''.''" and cs: "plain_name cs"
    using special_dot by (auto simp: plain_name_def)
  have "startswith (drop i s) (c # cs) = (startswith (drop i s) [c] \<and> startswith (drop (Suc i) s) cs)"
    using startswith_append_iff [of "drop i s" "[c]" cs] by simp
  then show ?case using c Cons.IH [OF cs, of "Suc i"] by simp
qed

lemma rep_lazy_first:
  "\<lbrakk>\<forall>j. i \<le> j \<and> j < e \<longrightarrow> k j = None; i \<le> e; e \<le> i + length cs; k e = Some r\<rbrakk>
   \<Longrightarrow> rep AnyC False cs 0 i k = Some r"
proof (induction cs arbitrary: i)
  case Nil
  then show ?case by simp
next
  case (Cons x xs)
  show ?case
  proof (cases "i = e")
    case True
    then show ?thesis using Cons.prems by simp
  next
    case False
    then have "k i = None" "Suc i \<le> e" using Cons.prems by auto
    moreover have "rep AnyC False xs 0 (Suc i) k = Some r"
      using Cons.prems False by (intro Cons.IH) auto
    ultimately show ?thesis by simp
  qed
qed

lemma rep_lazy_none:
  "\<forall>j. i \<le> j \<and> j \<le> i + length cs \<longrightarrow> k j = None \<Longrightarrow> rep AnyC False cs 0 i k = None"
proof (induction cs arbitrary: i)
  case Nil
  then show ?case by simp
next
  case (Cons x xs)
  have "rep AnyC False xs 0 (Suc i) k = None"
    using Cons.prems by (intro Cons.IH) auto
  moreover have "k i = None" using Cons.prems by auto
  ultimately show ?case by simp
qed

lemma first_match_upt:
  "\<lbrakk>a \<le> p; p < b; \<forall>i. a \<le> i \<and> i < p \<longrightarrow> match_at r s i = None; match_at r s p = Some mt\<rbrakk>
   \<Longrightarrow> first_match r s [a..<b] = Some mt"
proof (induction "p - a" arbitrary: a)
  case 0
  then have "a = p" by simp
  then show ?case using 0 by (simp add: upt_conv_Cons)
next
  case (Suc n)
  then have "a < p" "a < b" by auto
  moreover have "match_at r s a = None" using Suc.prems \<open>a < p\<close> by auto
  moreover have "first_match r s [Suc a..<b] = Some mt"
    using Suc by (intro Suc.hyps(1)) auto
  ultimately show ?case by (simp add: upt_conv_Cons)
qed

lemma first_match_none:
  "\<forall>i \<in> set ps. match_at r s i = None \<Longrightarrow> first_match r s ps = None"
  by (induction ps) auto


lemma startswith_length: "startswith s w \<Longrightarrow> length w \<le> length s"
  by (auto simp: startswith_iff)

lemma startswith_drop_eq:
  "startswith (drop e s) w \<Longrightarrow> drop e s = w @ drop (e + length w) s"
proof -
  assume "startswith (drop e s) w"
  then obtain t where t: "drop e s = w @ t" by (auto simp: startswith_iff)
  then have "drop (length w) (drop e s) = t" by simp
  then have "drop (e + length w) s = t" by (simp add: add.commute)
  with t show ?thesis by simp
qed


lemma find_sub_None_iff:
  "(find_sub w cs i = None) = (\<forall>j\<le>length cs. \<not> startswith (drop j cs) w)"
proof (induction cs arbitrary: i)
  case Nil
  then show ?case by (cases w) auto
next
  case (Cons c cs)
  have "(\<forall>j\<le>length (c # cs). \<not> startswith (drop j (c # cs)) w)
        = (\<not> startswith (c # cs) w \<and> (\<forall>j\<le>length cs. \<not> startswith (drop j cs) w))"
    (is "?L = ?R")
  proof
    assume L: ?L
    have "\<not> startswith (c # cs) w" using L [rule_format, of 0] by simp
    moreover have "\<not> startswith (drop j cs) w" if "j \<le> length cs" for j
      using L [rule_format, of "Suc j"] that by simp
    ultimately show ?R by blast
  next
    assume R: ?R
    show ?L
    proof (intro allI impI)
      fix j assume "j \<le> length (c # cs)"
      then show "\<not> startswith (drop j (c # cs)) w"
        using R by (cases j) auto
    qed
  qed
  then show ?case using Cons.IH [of "Suc i"] by (simp del: startswith.simps)
qed

lemma py_in_iff: "py_in w s = (\<exists>i\<le>length s. startswith (drop i s) w)"
  using find_sub_None_iff [of w s 0] by (auto simp: py_in_def find_str_def)

lemma not_py_in_startswith:
  assumes "\<not> py_in w s" and "w \<noteq> []"
  shows "\<not> startswith (drop i s) w"
proof (cases "i \<le> length s")
  case True
  then show ?thesis using assms by (auto simp: py_in_iff)
next
  case False
  then show ?thesis using assms by (cases w) auto
qed


section \<open>Properties of \<open>extract_section\<close>\<close>

subsection \<open>The marker pattern\<close>

lemma m_bracket:
  assumes "plain_name name"
  shows "mrun (seq [Lit a, name_re name, Lit b, Grp 1 (Rep AnyC 0 False),
                 Lit a', name_re name, Lit c]) s p (\<lambda>n. None) accept =
     (if startswith (drop p s) (a @ name @ b)
      then rep AnyC False (drop (p + length (a @ name @ b)) s) 0
             (p + length (a @ name @ b))
             (marker_tail (a' @ name @ c) s (p + length (a @ name @ b)))
      else None)"
proof -
  have tail: "(\<lambda>j. if startswith (drop j s) a'
          then if startswith (drop (j + length a') s) name
               then if startswith (drop (j + length a' + length name) s) c
                    then accept (j + length a' + length name + length c) ((\<lambda>n. None)(1 := Some (q, j)))
                    else None
               else None
          else None) = marker_tail (a' @ name @ c) s q" for q
    by (rule ext) (simp add: marker_tail_def startswith_append_iff accept_def add.commute add.left_commute)
  show ?thesis
    using assms
    apply (simp add: m_name_re_plain startswith_append_iff)
    apply (simp add: tail [symmetric] add.commute add.left_commute add.assoc cong: if_cong)
    done
qed

lemma m_marker_pattern:
  assumes "plain_name name"
  shows "mrun (marker_pattern name) s p (\<lambda>n. None) accept =
     (if startswith (drop p s) (start_marker name)
      then rep AnyC False (drop (p + length (start_marker name)) s) 0
             (p + length (start_marker name))
             (marker_tail (end_marker name) s (p + length (start_marker name)))
      else None)"
  unfolding marker_pattern_def start_marker_def end_marker_def
  by (rule m_bracket [OF assms])

lemma search_marker:
  assumes pn: "plain_name name"
    and sp: "startswith (drop p s) (start_marker name)"
    and first_p: "\<forall>i<p. \<not> startswith (drop i s) (start_marker name)"
    and q: "q = p + length (start_marker name)"
    and qe: "q \<le> e"
    and se: "startswith (drop e s) (end_marker name)"
    and first_e: "\<forall>j. q \<le> j \<and> j < e \<longrightarrow> \<not> startswith (drop j s) (end_marker name)"
  shows "re_search (marker_pattern name) s =
           Some \<lparr>m_start = p, m_end = e + length (end_marker name),
                 m_groups = (\<lambda>n. None)(1 := Some (q, e))\<rparr>"
proof -
  have ne: "end_marker name \<noteq> []" by (simp add: end_marker_def)
  have el: "e < length s"
    using startswith_length [OF se] ne by (cases "e < length s") auto
  have pl: "p < Suc (length s)" using qe q el by simp
  have none: "match_at (marker_pattern name) s i = None" if "i < p" for i
    using that first_p by (simp add: match_at_def m_marker_pattern [OF pn])
  have "rep AnyC False (drop q s) 0 q (marker_tail (end_marker name) s q)
        = Some (e + length (end_marker name), (\<lambda>n. None)(1 := Some (q, e)))"
  proof (rule rep_lazy_first [where e = e])
    show "\<forall>j. q \<le> j \<and> j < e \<longrightarrow> marker_tail (end_marker name) s q j = None"
      using first_e by (simp add: marker_tail_def)
    show "q \<le> e" by (rule qe)
    show "e \<le> q + length (drop q s)" using el qe by simp
    show "marker_tail (end_marker name) s q e
          = Some (e + length (end_marker name), (\<lambda>n. None)(1 := Some (q, e)))"
      using se by (simp add: marker_tail_def)
  qed
  then have some: "match_at (marker_pattern name) s p =
      Some \<lparr>m_start = p, m_end = e + length (end_marker name),
            m_groups = (\<lambda>n. None)(1 := Some (q, e))\<rparr>"
    using sp q by (simp add: match_at_def m_marker_pattern [OF pn])
  show ?thesis
    unfolding re_search_def
    by (rule first_match_upt [where p = p]) (use pl none some in auto)
qed

lemma extract_section_marker_pos:
  assumes pn: "plain_name name"
    and sp: "startswith (drop p s) (start_marker name)"
    and first_p: "\<forall>i<p. \<not> startswith (drop i s) (start_marker name)"
    and q: "q = p + length (start_marker name)"
    and qe: "q \<le> e"
    and se: "startswith (drop e s) (end_marker name)"
    and first_e: "\<forall>j. q \<le> j \<and> j < e \<longrightarrow> \<not> startswith (drop j s) (end_marker name)"
  shows "extract_section s name = Some (strip (take (e - q) (drop q s)))"
  using search_marker [OF assms]
  by (simp add: extract_section_def group_str_def)

lemma search_marker_none:
  assumes pn: "plain_name name" and no: "\<not> py_in (start_marker name) s"
  shows "re_search (marker_pattern name) s = None"
proof -
  have "start_marker name \<noteq> []" by (simp add: start_marker_def)
  then have "match_at (marker_pattern name) s i = None" for i
    using not_py_in_startswith [OF no] by (simp add: match_at_def m_marker_pattern [OF pn])
  then show ?thesis unfolding re_search_def by (intro first_match_none) simp
qed



text \<open>
  C1 (as amended).  Let the section name contain no character that the pattern syntax
  reads as an operator.  If the document contains a start marker of that name followed
  by an end marker of that name, \<open>extract_section\<close> returns the text between the first
  start marker and the first end marker after it, stripped of surrounding whitespace.
  Nothing is assumed about the rest of the document, so headings, also a heading section
  of the same name, have no influence.
\<close>

theorem extract_section_markers:
  assumes pn: "plain_name name"
    and doc: "content = pre @ start_marker name @ mid @ end_marker name @ post"
  shows "\<exists>pre' mid' post'.
           content = pre' @ start_marker name @ mid' @ end_marker name @ post'
         \<and> (\<forall>i<length pre'. \<not> startswith (drop i content) (start_marker name))
         \<and> (\<forall>j<length mid'. \<not> startswith (drop j (mid' @ end_marker name @ post')) (end_marker name))
         \<and> extract_section content name = Some (strip mid')"
proof -
  define S where "S = start_marker name"
  define E where "E = end_marker name"
  have Sne: "S \<noteq> []" and Ene: "E \<noteq> []"
    by (simp_all add: S_def E_def start_marker_def end_marker_def)
  define p where "p = (LEAST i. startswith (drop i content) S)"
  have at_pre: "startswith (drop (length pre) content) S"
    by (simp add: doc S_def startswith_iff)
  have sp: "startswith (drop p content) S"
    unfolding p_def by (rule LeastI [of _ "length pre"]) (rule at_pre)
  have p_le: "p \<le> length pre"
    unfolding p_def by (rule Least_le) (rule at_pre)
  have first_p: "\<forall>i<p. \<not> startswith (drop i content) S"
    unfolding p_def using not_less_Least by blast
  define q where "q = p + length S"
  define e1 where "e1 = length pre + length S + length mid"
  have at_e1: "q \<le> e1 \<and> startswith (drop e1 content) E"
    using p_le by (simp add: q_def e1_def doc S_def E_def startswith_iff)
  define e where "e = (LEAST j. q \<le> j \<and> startswith (drop j content) E)"
  have e_props: "q \<le> e \<and> startswith (drop e content) E"
    unfolding e_def by (rule LeastI [of _ e1]) (rule at_e1)
  have first_e: "\<forall>j. q \<le> j \<and> j < e \<longrightarrow> \<not> startswith (drop j content) E"
    unfolding e_def using not_less_Least by blast
  have el: "e < length content"
    using startswith_length [of "drop e content" E] e_props Ene
    by (cases "e < length content") auto
  define pre' where "pre' = take p content"
  define mid' where "mid' = take (e - q) (drop q content)"
  define post' where "post' = drop (e + length E) content"
  have d1: "drop p content = S @ drop q content"
    using startswith_drop_eq [OF sp] by (simp add: q_def)
  have d2: "drop e content = E @ post'"
    using startswith_drop_eq [of e content E] e_props by (simp add: post'_def)
  have "drop (e - q) (drop q content) = drop e content"
    using e_props by simp
  then have d3: "drop q content = mid' @ E @ post'"
    unfolding mid'_def using d2 by (metis append_take_drop_id)
  have decomp: "content = pre' @ S @ mid' @ E @ post'"
    unfolding pre'_def using d1 d3 by (metis append_take_drop_id)
  have lp: "length pre' = p" using el e_props by (simp add: pre'_def q_def)
  have lm: "length mid' = e - q" using el by (simp add: mid'_def)
  have c3: "\<forall>j<length mid'. \<not> startswith (drop j (mid' @ E @ post')) E"
  proof (intro allI impI)
    fix j assume "j < length mid'"
    then have "q \<le> q + j \<and> q + j < e" using lm by simp
    then have "\<not> startswith (drop (q + j) content) E" using first_e by blast
    moreover have "drop j (mid' @ E @ post') = drop (q + j) content"
    proof -
      have "drop j (drop q content) = drop (q + j) content" by (simp add: add.commute)
      then show ?thesis by (simp only: d3)
    qed
    ultimately show "\<not> startswith (drop j (mid' @ E @ post')) E" by simp
  qed
  have "extract_section content name = Some (strip mid')"
    unfolding mid'_def
    by (rule extract_section_marker_pos [where p = p and e = e])
       (use pn sp first_p q_def e_props first_e in \<open>simp_all add: S_def E_def\<close>)
  with decomp lp first_p c3 show ?thesis
    unfolding S_def E_def by blast
qed

theorem extract_section_markers_witness:
  "plain_name ''requirements''
   \<and> (\<exists>pre' mid' post'.
        ''# T\<newline><!-- EXTRACT:requirements:start -->\<newline>1. x \<newline><!-- EXTRACT:requirements:end -->\<newline>## REQUIREMENTS\<newline>y\<newline>''
          = pre' @ start_marker ''requirements'' @ mid' @ end_marker ''requirements'' @ post'
      \<and> (\<forall>i<length pre'. \<not> startswith (drop i ''# T\<newline><!-- EXTRACT:requirements:start -->\<newline>1. x \<newline><!-- EXTRACT:requirements:end -->\<newline>## REQUIREMENTS\<newline>y\<newline>'') (start_marker ''requirements''))
      \<and> (\<forall>j<length mid'. \<not> startswith (drop j (mid' @ end_marker ''requirements'' @ post')) (end_marker ''requirements''))
      \<and> extract_section ''# T\<newline><!-- EXTRACT:requirements:start -->\<newline>1. x \<newline><!-- EXTRACT:requirements:end -->\<newline>## REQUIREMENTS\<newline>y\<newline>'' ''requirements'' = Some (strip mid'))
   \<and> extract_section ''# T\<newline><!-- EXTRACT:requirements:start -->\<newline>1. x \<newline><!-- EXTRACT:requirements:end -->\<newline>## REQUIREMENTS\<newline>y\<newline>'' ''requirements'' = Some ''1. x''"
proof -
  have pn: "plain_name ''requirements''"
    by (simp add: plain_name_def special_def code_def)
  have doc: "''# T\<newline><!-- EXTRACT:requirements:start -->\<newline>1. x \<newline><!-- EXTRACT:requirements:end -->\<newline>## REQUIREMENTS\<newline>y\<newline>''
      = ''# T\<newline>'' @ start_marker ''requirements'' @ ''\<newline>1. x \<newline>''
        @ end_marker ''requirements'' @ ''\<newline>## REQUIREMENTS\<newline>y\<newline>''"
    by (simp add: start_marker_def end_marker_def)
  have val: "extract_section ''# T\<newline><!-- EXTRACT:requirements:start -->\<newline>1. x \<newline><!-- EXTRACT:requirements:end -->\<newline>## REQUIREMENTS\<newline>y\<newline>'' ''requirements'' = Some ''1. x''"
    by code_simp
  from pn extract_section_markers [OF pn doc] val show ?thesis by blast
qed

text \<open>
  C1 as stated fails for a name that the pattern syntax reads differently: with the name
  \<open>a.b\<close> the dot stands for any character, so the markers of the section \<open>aXb\<close> are
  taken for those of \<open>a.b\<close>, and the text between the \<open>a.b\<close> markers is not returned.
\<close>

theorem extract_section_markers_counterexample:
  "modelled_name ''a.b''
   \<and> extract_section (''<!-- EXTRACT:aXb:start -->1<!-- EXTRACT:aXb:end -->''
                    @ start_marker ''a.b'' @ ''2'' @ end_marker ''a.b'') ''a.b'' = Some ''1''
   \<and> strip ''2'' \<noteq> ''1''"
  by code_simp

subsection \<open>The heading pattern\<close>

lemma replace_skip_single:
  "replace_skip [c] [d] s 0 = map (\<lambda>x. if x = c then d else x) s"
  by (induction s) (auto)

lemma code_char_of: "n < 256 \<Longrightarrow> code (char_of n) = n"
  by (simp add: code_def)

lemma special_code: "special c \<Longrightarrow> \<not> (65 \<le> code c \<and> code c \<le> 90) \<and> code c \<noteq> 95"
  by (auto simp: special_def code_def)

lemma plain_upper_char:
  "code c < 128 \<Longrightarrow> \<not> special c \<Longrightarrow> code (upper_char c) < 128 \<and> \<not> special (upper_char c)"
  using special_code [of "upper_char c"]
  by (auto simp: upper_char_def code_char_of)

lemma plain_section_name_upper: "plain_name name \<Longrightarrow> plain_name (section_name_upper name)"
proof -
  assume pn: "plain_name name"
  have us: "code (CHR ''_'') < 128 \<and> \<not> special (CHR ''_'')"
    by (simp add: special_def code_def)
  show ?thesis
    using pn plain_upper_char us
    by (auto simp: plain_name_def section_name_upper_def replace_def upper_def replace_skip_single)
qed

lemma m_stop:
  "mrun (Ahead (Alt (Seq Bol (Lit ''##'')) Eos)) s j G k = (if section_stop s j then k j G else None)"
  by (auto simp: section_stop_def accept_def simp del: startswith.simps)

lemma m_heading_gen:
  assumes "plain_name u"
    and r: "\<And>j G k. mrun r s j G k = (if section_stop s j then k j G else None)"
  shows "mrun (seq [Bol, Lit a, name_re u, Lit b, Grp 1 (Rep AnyC 0 False), r]) s p (\<lambda>n. None) accept =
     (if line_start s p \<and> startswith (drop p s) (a @ u @ b)
      then rep AnyC False (drop (p + length (a @ u @ b)) s) 0
             (p + length (a @ u @ b)) (stop_tail s (p + length (a @ u @ b)))
      else None)"
proof -
  have tail: "(\<lambda>j. if section_stop s j then accept j ((\<lambda>n. None)(Suc 0 := Some (q, j))) else None)
              = stop_tail s q" for q
    by (rule ext) (simp add: stop_tail_def accept_def)
  show ?thesis
    using assms(1)
    apply (simp add: m_name_re_plain startswith_append_iff r del: startswith.simps)
    apply (simp add: tail [symmetric] add.commute add.left_commute add.assoc cong: if_cong del: startswith.simps)
    done
qed

lemma m_section_pattern:
  assumes "plain_name name"
  shows "mrun (section_pattern name) s p (\<lambda>n. None) accept =
     (if heading_at name s p
      then rep AnyC False (drop (p + length (heading_line name)) s) 0
             (p + length (heading_line name)) (stop_tail s (p + length (heading_line name)))
      else None)"
  unfolding section_pattern_def heading_at_def heading_line_def
  by (rule m_heading_gen [OF plain_section_name_upper [OF assms] m_stop])

lemma heading_at_length:
  "heading_at name s h \<Longrightarrow> h + length (heading_line name) \<le> length s"
proof -
  assume "heading_at name s h"
  then have sw: "startswith (drop h s) (heading_line name)" by (simp add: heading_at_def)
  have ne: "heading_line name \<noteq> []" by (simp add: heading_line_def)
  have "length (heading_line name) \<le> length (drop h s)" by (rule startswith_length [OF sw])
  then show ?thesis using ne by (cases "h \<le> length s") auto
qed

lemma search_section:
  assumes pn: "plain_name name"
    and hp: "heading_at name s h"
    and first_h: "\<forall>i<h. \<not> heading_at name s i"
    and q: "q = h + length (heading_line name)"
    and qe: "q \<le> e"
    and se: "section_stop s e"
    and first_e: "\<forall>j. q \<le> j \<and> j < e \<longrightarrow> \<not> section_stop s j"
  shows "re_search (section_pattern name) s =
           Some \<lparr>m_start = h, m_end = e, m_groups = (\<lambda>n. None)(1 := Some (q, e))\<rparr>"
proof -
  have ql: "q \<le> length s" using heading_at_length [OF hp] q by simp
  have el: "e \<le> length s"
  proof (rule ccontr)
    assume "\<not> e \<le> length s"
    then have "q \<le> length s \<and> length s < e" using ql by simp
    then have "\<not> section_stop s (length s)" using first_e by blast
    then show False by (simp add: section_stop_def)
  qed
  have hl: "h < Suc (length s)" using ql q by simp
  have none: "match_at (section_pattern name) s i = None" if "i < h" for i
    using that first_h by (simp add: match_at_def m_section_pattern [OF pn])
  have "rep AnyC False (drop q s) 0 q (stop_tail s q) = Some (e, (\<lambda>n. None)(1 := Some (q, e)))"
  proof (rule rep_lazy_first [where e = e])
    show "\<forall>j. q \<le> j \<and> j < e \<longrightarrow> stop_tail s q j = None"
      using first_e by (simp add: stop_tail_def)
    show "q \<le> e" by (rule qe)
    show "e \<le> q + length (drop q s)" using el ql by simp
    show "stop_tail s q e = Some (e, (\<lambda>n. None)(1 := Some (q, e)))"
      using se by (simp add: stop_tail_def)
  qed
  then have some: "match_at (section_pattern name) s h =
      Some \<lparr>m_start = h, m_end = e, m_groups = (\<lambda>n. None)(1 := Some (q, e))\<rparr>"
    using hp q by (simp add: match_at_def m_section_pattern [OF pn])
  show ?thesis
    unfolding re_search_def
    by (rule first_match_upt [where p = h]) (use hl none some in auto)
qed


text \<open>
  C2 (as amended).  Let the section name contain no operator character, and let the
  document contain no start marker of that name but, at the start of a line, the heading
  line \<open>## NAME\<close> (the name in upper case with \<open>_\<close> for \<open>-\<close>, followed by a newline).
  Then \<open>extract_section\<close> returns the stripped text from the end of the first such
  heading line up to the first following position that is the end of the document or
  the start of a line beginning with \<open>##\<close>; a line beginning with \<open>###\<close> is such a
  line, so a sub-heading ends the captured text.
\<close>

theorem extract_section_heading:
  assumes pn: "plain_name name"
    and no: "\<not> py_in (start_marker name) content"
    and h0: "heading_at name content h0"
  shows "\<exists>h e. heading_at name content h \<and> (\<forall>i<h. \<not> heading_at name content i)
           \<and> h + length (heading_line name) \<le> e \<and> section_stop content e
           \<and> (\<forall>j. h + length (heading_line name) \<le> j \<and> j < e \<longrightarrow> \<not> section_stop content j)
           \<and> extract_section content name
               = Some (strip (take (e - (h + length (heading_line name)))
                                (drop (h + length (heading_line name)) content)))"
proof -
  define h where "h = (LEAST i. heading_at name content i)"
  have hp: "heading_at name content h"
    unfolding h_def by (rule LeastI [of _ h0]) (rule h0)
  have first_h: "\<forall>i<h. \<not> heading_at name content i"
    unfolding h_def using not_less_Least by blast
  define q where "q = h + length (heading_line name)"
  have ql: "q \<le> length content" using heading_at_length [OF hp] by (simp add: q_def)
  have at_end: "q \<le> length content \<and> section_stop content (length content)"
    using ql by (simp add: section_stop_def)
  define e where "e = (LEAST j. q \<le> j \<and> section_stop content j)"
  have e_props: "q \<le> e \<and> section_stop content e"
    unfolding e_def by (rule LeastI [of _ "length content"]) (rule at_end)
  have first_e: "\<forall>j. q \<le> j \<and> j < e \<longrightarrow> \<not> section_stop content j"
    unfolding e_def using not_less_Least by blast
  have "re_search (section_pattern name) content =
           Some \<lparr>m_start = h, m_end = e, m_groups = (\<lambda>n. None)(1 := Some (q, e))\<rparr>"
    by (rule search_section [OF pn hp first_h q_def]) (use e_props first_e in auto)
  then have "extract_section content name = Some (strip (take (e - q) (drop q content)))"
    using search_marker_none [OF pn no] by (simp add: extract_section_def group_str_def)
  with hp first_h e_props first_e show ?thesis unfolding q_def by blast
qed

theorem extract_section_heading_witness:
  "plain_name ''requirements''
   \<and> \<not> py_in (start_marker ''requirements'') ''# T\<newline>## REQUIREMENTS\<newline>A\<newline>B\<newline>## NEXT\<newline>C''
   \<and> heading_at ''requirements'' ''# T\<newline>## REQUIREMENTS\<newline>A\<newline>B\<newline>## NEXT\<newline>C'' 4
   \<and> (\<exists>h e. heading_at ''requirements'' ''# T\<newline>## REQUIREMENTS\<newline>A\<newline>B\<newline>## NEXT\<newline>C'' h
        \<and> section_stop ''# T\<newline>## REQUIREMENTS\<newline>A\<newline>B\<newline>## NEXT\<newline>C'' e
        \<and> extract_section ''# T\<newline>## REQUIREMENTS\<newline>A\<newline>B\<newline>## NEXT\<newline>C'' ''requirements''
            = Some (strip (take (e - (h + length (heading_line ''requirements'')))
                            (drop (h + length (heading_line ''requirements''))
                               ''# T\<newline>## REQUIREMENTS\<newline>A\<newline>B\<newline>## NEXT\<newline>C''))))
   \<and> extract_section ''# T\<newline>## REQUIREMENTS\<newline>A\<newline>B\<newline>## NEXT\<newline>C'' ''requirements''
       = Some ''A\<newline>B''"
proof -
  have pn: "plain_name ''requirements''"
    by (simp add: plain_name_def special_def code_def)
  have no: "\<not> py_in (start_marker ''requirements'') ''# T\<newline>## REQUIREMENTS\<newline>A\<newline>B\<newline>## NEXT\<newline>C''"
    by code_simp
  have h: "heading_at ''requirements'' ''# T\<newline>## REQUIREMENTS\<newline>A\<newline>B\<newline>## NEXT\<newline>C'' 4"
    by code_simp
  have val: "extract_section ''# T\<newline>## REQUIREMENTS\<newline>A\<newline>B\<newline>## NEXT\<newline>C'' ''requirements''
       = Some ''A\<newline>B''"
    by code_simp
  from pn no h extract_section_heading [OF pn no h] val show ?thesis by blast
qed

text \<open>
  C2 as stated fails on a section with a sub-heading: the text after \<open>### Sub\<close> belongs
  to the section but is not returned, because the line \<open>### Sub\<close> begins with \<open>##\<close>.
\<close>

theorem extract_section_heading_counterexample:
  "extract_section ''## REQUIREMENTS\<newline>A\<newline>### Sub\<newline>B\<newline>## NEXT\<newline>C'' ''requirements''
     = Some ''A''
   \<and> \<not> py_in (start_marker ''requirements'') ''## REQUIREMENTS\<newline>A\<newline>### Sub\<newline>B\<newline>## NEXT\<newline>C''
   \<and> strip ''A\<newline>### Sub\<newline>B\<newline>'' \<noteq> ''A''"
  by code_simp

section \<open>Properties of the validator\<close>

subsection \<open>The sequence check\<close>

lemma first_gap_None: "(first_gap i ns = None) = (ns = [i..<i + length ns])"
proof (induction ns arbitrary: i)
  case Nil
  then show ?case by simp
next
  case (Cons n ns)
  have "[i..<Suc (i + length ns)] = i # [Suc i..<Suc (i + length ns)]"
    by (rule upt_conv_Cons) simp
  then have "(n # ns = [i..<i + length (n # ns)]) = (n = i \<and> ns = [Suc i..<Suc i + length ns])"
    by (simp del: upt_Suc)
  then show ?case using Cons.IH [of "Suc i"] by (simp del: upt_Suc)
qed

lemma first_gap_Some:
  "first_gap i ns = Some (j, num) \<Longrightarrow>
     i \<le> j \<and> j < i + length ns \<and> take (j - i) ns = [i..<j] \<and> ns ! (j - i) = num \<and> num \<noteq> j"
proof (induction ns arbitrary: i)
  case Nil
  then show ?case by simp
next
  case (Cons n ns)
  show ?case
  proof (cases "n = i")
    case False
    then show ?thesis using Cons.prems by auto
  next
    case True
    then have fg: "first_gap (Suc i) ns = Some (j, num)" using Cons.prems by simp
    note ih = Cons.IH [OF fg]
    then have lt: "i < j" by simp
    then have "j - i = Suc (j - Suc i)" by simp
    then show ?thesis using ih True lt by (simp add: upt_conv_Cons)
  qed
qed

lemma missing_in_sorted:
  assumes s: "sorted ns" and d: "distinct ns" and z: "0 \<notin> set ns"
    and i1: "1 \<le> i" and il: "i \<le> length ns"
    and tk: "take (i - 1) ns = [1..<i]" and ne: "ns ! (i - 1) \<noteq> i"
  shows "i \<notin> set ns \<and> (\<forall>k \<in> {1..<i}. k \<in> set ns)"
proof
  have pre: "ns ! m = Suc m" if "m < i - 1" for m
  proof -
    have "ns ! m = take (i - 1) ns ! m" using that by simp
    also have "\<dots> = [1..<i] ! m" by (simp only: tk)
    also have "\<dots> = Suc m" using that by simp
    finally show ?thesis .
  qed
  show "\<forall>k \<in> {1..<i}. k \<in> set ns"
  proof
    fix k assume k: "k \<in> {1..<i}"
    then have "k - 1 < i - 1" by auto
    then have "ns ! (k - 1) = k" using pre [of "k - 1"] k by auto
    moreover have "k - 1 < length ns" using k il by auto
    ultimately show "k \<in> set ns" by (metis nth_mem)
  qed
  show "i \<notin> set ns"
  proof
    assume "i \<in> set ns"
    then obtain m where m: "m < length ns" "ns ! m = i" by (auto simp: in_set_conv_nth)
    have il': "i - 1 < length ns" using i1 il by simp
    consider "m < i - 1" | "m = i - 1" | "i - 1 < m" by linarith
    then show False
    proof cases
      case 1
      then show False using pre [of m] m by simp
    next
      case 2
      then show False using m ne by simp
    next
      case 3
      have "ns ! (i - 1) \<le> ns ! m" using s 3 m(1) by (simp add: sorted_nth_mono)
      moreover have "ns ! (i - 1) \<noteq> ns ! m"
        using d 3 m(1) il' by (simp add: nth_eq_iff_index_eq)
      ultimately have lt: "ns ! (i - 1) < i" using m by simp
      define v where "v = ns ! (i - 1)"
      have "v \<in> set ns" unfolding v_def using il' by simp
      then have v0: "0 < v" using z by (cases "v = 0") auto
      then have "v - 1 < i - 1" using lt v_def by simp
      then have "ns ! (v - 1) = v" using pre [of "v - 1"] v0 by simp
      then have "ns ! (v - 1) = ns ! (i - 1)" by (simp add: v_def)
      moreover have "v - 1 \<noteq> i - 1" "v - 1 < length ns" using \<open>v - 1 < i - 1\<close> il' by auto
      ultimately show False using d il' by (simp add: nth_eq_iff_index_eq)
    qed
  qed
qed

lemma check_sequential_ids_report:
  "\<exists>w. check_sequential_ids ids prefix ws = ws @ w
       \<and> family_report prefix (sort (id_numbers prefix ids)) w"
proof -
  define ns where "ns = sort (id_numbers prefix ids)"
  have sorted: "sorted ns" by (simp add: ns_def)
  show ?thesis
  proof (cases "first_gap 1 ns")
    case None
    then have seq: "ns = [1..<Suc (length ns)]" using first_gap_None [of 1 ns] by simp
    have "check_sequential_ids ids prefix ws = ws"
      using None by (simp add: check_sequential_ids_def ns_def)
    moreover have "family_report prefix ns []"
      using seq by (simp add: family_report_def)
    ultimately show ?thesis unfolding ns_def by simp
  next
    case (Some r)
    obtain i num where r: "r = (i, num)" by (cases r)
    note fg = first_gap_Some [OF Some [unfolded r]]
    have ne: "ids \<noteq> []"
    proof
      assume "ids = []"
      then have "ns = []" by (simp add: ns_def id_numbers_def)
      then show False using Some by simp
    qed
    have i1: "1 \<le> i" and il: "i \<le> length ns" and tk: "take (i - 1) ns = [1..<i]"
      and nth: "ns ! (i - 1) = num" and neq: "num \<noteq> i"
      using fg by auto
    have notseq: "ns \<noteq> [1..<Suc (length ns)]"
    proof
      assume "ns = [1..<Suc (length ns)]"
      then have "first_gap 1 ns = None" using first_gap_None [of 1 ns] by simp
      then show False using Some by simp
    qed
    have res: "check_sequential_ids ids prefix ws = ws @ [sequence_warning prefix i num]"
      using Some r ne by (simp add: check_sequential_ids_def ns_def)
    have imp: "distinct ns \<and> 0 \<notin> set ns \<longrightarrow> i \<notin> set ns \<and> (\<forall>k \<in> {1..<i}. k \<in> set ns)"
      using missing_in_sorted [OF sorted _ _ i1 il tk] nth neq by blast
    have "family_report prefix ns [sequence_warning prefix i num]"
      unfolding family_report_def using notseq i1 il tk nth neq imp
      by (auto intro!: bexI [of _ i])
    with res show ?thesis unfolding ns_def by blast
  qed
qed


text \<open>
  C5 (as amended).  The warnings that \<open>_validate_id_formats\<close> adds are: what the \<open>REQ\<close>
  family contributes, then what the \<open>ANT\<close> family contributes, then the warnings about the
  number of examples.  Each family is judged on its own sorted numbers by the same rule: no
  warning when they are \<open>1, ..., n\<close>, and otherwise exactly one warning, which cites the
  first position whose number deviates (so later gaps are not reported); when the numbers
  of the family are distinct and positive, the cited number is the smallest one missing.
\<close>

theorem validate_id_formats_sequencing:
  "\<exists>wr wa. validate_id_formats content ws = ws @ wr @ wa @ example_warnings content
     \<and> family_report ''REQ'' (sort (id_numbers ''REQ'' (findall1 (id_pattern ''REQ'') content))) wr
     \<and> family_report ''ANT'' (sort (id_numbers ''ANT'' (findall1 (id_pattern ''ANT'') content))) wa"
proof -
  obtain wr where wr: "check_sequential_ids (findall1 (id_pattern ''REQ'') content) ''REQ'' ws = ws @ wr"
      "family_report ''REQ'' (sort (id_numbers ''REQ'' (findall1 (id_pattern ''REQ'') content))) wr"
    using check_sequential_ids_report by blast
  obtain wa where wa: "check_sequential_ids (findall1 (id_pattern ''ANT'') content) ''ANT'' (ws @ wr) = (ws @ wr) @ wa"
      "family_report ''ANT'' (sort (id_numbers ''ANT'' (findall1 (id_pattern ''ANT'') content))) wa"
    using check_sequential_ids_report by blast
  have "validate_id_formats content ws = ws @ wr @ wa @ example_warnings content"
    using wr(1) wa(1) by (simp add: validate_id_formats_def Let_def)
  with wr(2) wa(2) show ?thesis by blast
qed

theorem validate_id_formats_sequencing_witness:
  "(\<exists>wr wa. validate_id_formats ''**[REQ001]** a **[REQ002]** b **[REQ004]** c'' []
        = [] @ wr @ wa @ example_warnings ''**[REQ001]** a **[REQ002]** b **[REQ004]** c''
     \<and> family_report ''REQ'' (sort (id_numbers ''REQ''
          (findall1 (id_pattern ''REQ'') ''**[REQ001]** a **[REQ002]** b **[REQ004]** c''))) wr
     \<and> family_report ''ANT'' (sort (id_numbers ''ANT''
          (findall1 (id_pattern ''ANT'') ''**[REQ001]** a **[REQ002]** b **[REQ004]** c''))) wa)
   \<and> validate_id_formats ''**[REQ001]** a **[REQ002]** b **[REQ004]** c'' []
       = [''REQ IDs are not sequential. Expected REQ003, found REQ004'',
          ''Should have at least 2 GOOD_EXAMPLE sections'',
          ''Should have at least 1 BAD_EXAMPLE section'']"
proof -
  have val: "validate_id_formats ''**[REQ001]** a **[REQ002]** b **[REQ004]** c'' []
       = [''REQ IDs are not sequential. Expected REQ003, found REQ004'',
          ''Should have at least 2 GOOD_EXAMPLE sections'',
          ''Should have at least 1 BAD_EXAMPLE section'']"
    by code_simp
  from validate_id_formats_sequencing [of "''**[REQ001]** a **[REQ002]** b **[REQ004]** c''" "[]"] val
  show ?thesis by blast
qed

text \<open>
  C5 as stated fails when an identifier is repeated before the gap: the sorted numbers
  \<open>1, 1, 2, 4\<close> have their first gap at 3, but the one warning cites \<open>REQ002\<close>, which is
  present in the document.
\<close>

theorem validate_id_formats_sequencing_counterexample:
  "sort (id_numbers ''REQ''
     (findall1 (id_pattern ''REQ'') ''**[REQ001]** **[REQ001]** **[REQ002]** **[REQ004]**''))
     = [1, 1, 2, 4]
   \<and> validate_id_formats ''**[REQ001]** **[REQ001]** **[REQ002]** **[REQ004]**'' []
       = [''REQ IDs are not sequential. Expected REQ002, found REQ001'',
          ''Should have at least 2 GOOD_EXAMPLE sections'',
          ''Should have at least 1 BAD_EXAMPLE section'']"
  by code_simp

subsection \<open>\<open>fix_common_issues\<close> on a conformant document\<close>

lemma isdigit_digit_chars: "isdigit d \<Longrightarrow> d \<in> set digit_chars"
proof -
  assume "isdigit d"
  then have r: "48 \<le> (of_char d :: nat)" "(of_char d :: nat) \<le> 57"
    by (simp_all add: isdigit_def code_def)
  have "(of_char d :: nat) = of_char (CHR ''0'') \<or> (of_char d :: nat) = of_char (CHR ''1'')
      \<or> (of_char d :: nat) = of_char (CHR ''2'') \<or> (of_char d :: nat) = of_char (CHR ''3'')
      \<or> (of_char d :: nat) = of_char (CHR ''4'') \<or> (of_char d :: nat) = of_char (CHR ''5'')
      \<or> (of_char d :: nat) = of_char (CHR ''6'') \<or> (of_char d :: nat) = of_char (CHR ''7'')
      \<or> (of_char d :: nat) = of_char (CHR ''8'') \<or> (of_char d :: nat) = of_char (CHR ''9'')"
    using r by simp arith
  then have "d = CHR ''0'' \<or> d = CHR ''1'' \<or> d = CHR ''2'' \<or> d = CHR ''3'' \<or> d = CHR ''4''
      \<or> d = CHR ''5'' \<or> d = CHR ''6'' \<or> d = CHR ''7'' \<or> d = CHR ''8'' \<or> d = CHR ''9''"
    by (simp only: of_char_eq_iff)
  then show ?thesis unfolding digit_chars_def by auto
qed

lemma startswith_drop_Cons:
  "startswith (drop j s) (d # b) = (j < length s \<and> s ! j = d \<and> startswith (drop (Suc j) s) b)"
proof (cases "j < length s")
  case True
  then have "drop j s = s ! j # drop (Suc j) s" by (simp add: Cons_nth_drop_Suc)
  then show ?thesis using True by simp
next
  case False
  then show ?thesis by simp
qed

lemma startswith_py_in: "startswith (drop i s) w \<Longrightarrow> w \<noteq> [] \<Longrightarrow> py_in w s"
proof -
  assume sw: "startswith (drop i s) w" and ne: "w \<noteq> []"
  have "i \<le> length s"
  proof (rule ccontr)
    assume "\<not> i \<le> length s"
    then have "drop i s = []" by simp
    then show False using sw ne by (cases w) auto
  qed
  then show ?thesis using sw by (auto simp: py_in_iff)
qed

lemma match_pad1:
  assumes "match_at (seq [Lit a, Grp 1 (One DigitC), Lit b]) s i = Some mt"
  shows "\<exists>d. isdigit d \<and> startswith (drop i s) (a @ [d] @ b)"
proof -
  from assms have "startswith (drop i s) a \<and> i + length a < length s \<and> isdigit (s ! (i + length a))
      \<and> startswith (drop (Suc (i + length a)) s) b"
    by (auto simp: match_at_def split: if_splits option.splits simp del: startswith.simps)
  then have "isdigit (s ! (i + length a)) \<and> startswith (drop i s) (a @ [s ! (i + length a)] @ b)"
    by (simp add: startswith_append_iff startswith_drop_Cons add.commute del: startswith.simps)
  then show ?thesis by blast
qed

lemma match_pad2:
  assumes "match_at (seq [Lit a, Grp 1 (Seq (One DigitC) (One DigitC)), Lit b]) s i = Some mt"
  shows "\<exists>d e. isdigit d \<and> isdigit e \<and> startswith (drop i s) (a @ [d, e] @ b)"
proof -
  from assms have "startswith (drop i s) a \<and> i + length a < length s \<and> isdigit (s ! (i + length a))
      \<and> Suc (i + length a) < length s \<and> isdigit (s ! Suc (i + length a))
      \<and> startswith (drop (Suc (Suc (i + length a))) s) b"
    by (auto simp: match_at_def split: if_splits option.splits simp del: startswith.simps)
  then have "isdigit (s ! (i + length a)) \<and> isdigit (s ! Suc (i + length a))
      \<and> startswith (drop i s) (a @ [s ! (i + length a)] @ [s ! Suc (i + length a)] @ b)"
    by (simp add: startswith_append_iff startswith_drop_Cons add.commute del: startswith.simps)
  then show ?thesis by auto
qed

lemma match_old_heading:
  assumes "match_at (Seq (Lit a) (Grp 1 (One DigitC))) s i = Some mt"
  shows "\<exists>d. isdigit d \<and> startswith (drop i s) (a @ [d])"
proof -
  from assms have "startswith (drop i s) a \<and> i + length a < length s \<and> isdigit (s ! (i + length a))"
    by (auto simp: match_at_def split: if_splits option.splits simp del: startswith.simps)
  then have "isdigit (s ! (i + length a)) \<and> startswith (drop i s) (a @ [s ! (i + length a)])"
    by (simp add: startswith_append_iff startswith_drop_Cons add.commute del: startswith.simps(2))
  then show ?thesis by blast
qed

lemma scan_no_match: "\<forall>i. match_at r s i = None \<Longrightarrow> scan r s ps nxt = []"
  by (induction ps arbitrary: nxt) auto

lemma re_sub_no_match: "\<forall>i. match_at r s i = None \<Longrightarrow> re_sub r f s = s"
  by (simp add: re_sub_def finditer_def scan_no_match)

lemma conformant_pad1:
  assumes c: "\<forall>w \<in> set (unpadded_ids prefix). \<not> py_in w s"
  shows "match_at (pad1_pattern prefix) s i = None"
proof (rule ccontr)
  assume "match_at (pad1_pattern prefix) s i \<noteq> None"
  then obtain mt where "match_at (pad1_pattern prefix) s i = Some mt" by auto
  then obtain d where d: "isdigit d" "startswith (drop i s) ((''**['' @ prefix) @ [d] @ '']**'')"
    unfolding pad1_pattern_def using match_pad1 by blast
  have "py_in ((''**['' @ prefix) @ [d] @ '']**'') s"
    by (rule startswith_py_in [OF d(2)]) simp
  moreover have "(''**['' @ prefix) @ [d] @ '']**'' \<in> set (unpadded_ids prefix)"
    using isdigit_digit_chars [OF d(1)] by (auto simp: unpadded_ids_def)
  ultimately show False using c by blast
qed

lemma conformant_pad2:
  assumes c: "\<forall>w \<in> set (unpadded_ids prefix). \<not> py_in w s"
  shows "match_at (pad2_pattern prefix) s i = None"
proof (rule ccontr)
  assume "match_at (pad2_pattern prefix) s i \<noteq> None"
  then obtain mt where "match_at (pad2_pattern prefix) s i = Some mt" by auto
  then obtain d e where d: "isdigit d" "isdigit e"
      "startswith (drop i s) ((''**['' @ prefix) @ [d, e] @ '']**'')"
    unfolding pad2_pattern_def using match_pad2 by blast
  have "py_in ((''**['' @ prefix) @ [d, e] @ '']**'') s"
    by (rule startswith_py_in [OF d(3)]) simp
  moreover have "(''**['' @ prefix) @ [d, e] @ '']**'' \<in> set (unpadded_ids prefix)"
    using isdigit_digit_chars [OF d(1)] isdigit_digit_chars [OF d(2)]
    by (auto simp: unpadded_ids_def)
  ultimately show False using c by blast
qed

lemma conformant_old_heading:
  assumes c: "\<forall>w \<in> set old_headings. \<not> py_in w s" and k: "kind = ''Good'' \<or> kind = ''Bad''"
  shows "match_at (old_heading_pattern kind) s i = None"
proof (rule ccontr)
  assume "match_at (old_heading_pattern kind) s i \<noteq> None"
  then obtain mt where "match_at (old_heading_pattern kind) s i = Some mt" by auto
  then obtain d where d: "isdigit d" "startswith (drop i s) ((''### '' @ kind @ '' Example '') @ [d])"
    unfolding old_heading_pattern_def using match_old_heading by blast
  have "py_in ((''### '' @ kind @ '' Example '') @ [d]) s"
    by (rule startswith_py_in [OF d(2)]) simp
  moreover have "(''### '' @ kind @ '' Example '') @ [d] \<in> set old_headings"
    using isdigit_digit_chars [OF d(1)] k by (auto simp: old_headings_def)
  ultimately show False using c by blast
qed

lemma fix_ids_conformant:
  assumes "conformant s"
  shows "fix_ids s = s"
proof -
  have r: "\<forall>w \<in> set (unpadded_ids ''REQ''). \<not> py_in w s"
    and a: "\<forall>w \<in> set (unpadded_ids ''ANT''). \<not> py_in w s"
    using assms by (auto simp: conformant_def)
  show ?thesis
    by (simp add: fix_ids_def Let_def re_sub_no_match
          conformant_pad1 [OF r] conformant_pad2 [OF r] conformant_pad1 [OF a] conformant_pad2 [OF a])
qed

lemma fix_examples_conformant:
  assumes "conformant s"
  shows "fix_examples s = s"
proof -
  have h: "\<forall>w \<in> set old_headings. \<not> py_in w s"
    using assms by (auto simp: conformant_def)
  show ?thesis
    by (simp add: fix_examples_def Let_def re_sub_no_match conformant_old_heading [OF h])
qed

lemma add_markers_conformant: "conformant s \<Longrightarrow> add_markers s = s"
  by (auto simp: conformant_def add_markers_def)


text \<open>
  C8.  On a conformant document (every \<open>REQ\<close>/\<open>ANT\<close> tag has at least three digits, no
  example heading is in the old form, and the start marker is present if there is a
  \<open>MUST_FOLLOW\<close> heading) \<open>fix_common_issues\<close> returns false and leaves every file as it
  was.
\<close>

theorem fix_common_issues_conformant:
  assumes "conformant content" and "fs rule_file = Some content"
  shows "fix_common_issues fs rule_file = Inr (False, fs)"
  using assms
  by (simp add: fix_common_issues_def fix_ids_conformant fix_examples_conformant
        add_markers_conformant)

theorem fix_common_issues_conformant_witness:
  "conformant ''**[REQ001]** x''
   \<and> fix_common_issues (Map.empty(''rule.md'' := Some ''**[REQ001]** x'')) ''rule.md''
       = Inr (False, Map.empty(''rule.md'' := Some ''**[REQ001]** x''))"
proof -
  have c: "conformant ''**[REQ001]** x''"
    by code_simp
  have f: "(Map.empty(''rule.md'' := Some ''**[REQ001]** x'')) ''rule.md'' = Some ''**[REQ001]** x''"
    by simp
  from c fix_common_issues_conformant
      [of "''**[REQ001]** x''" "Map.empty(''rule.md'' := Some ''**[REQ001]** x'')" "''rule.md''", OF c f]
  show ?thesis by blast
qed

section \<open>Properties of the differ\<close>




















subsection \<open>Similarity of two rules\<close>

lemma jaccard_bounds: "finite a \<Longrightarrow> finite b \<Longrightarrow> 0 \<le> jaccard a b \<and> jaccard a b \<le> 1"
proof -
  assume fin: "finite a" "finite b"
  have "card (a \<inter> b) \<le> card (a \<union> b)"
    using fin by (intro card_mono) auto
  then show ?thesis
    by (auto simp: jaccard_def Let_def divide_le_eq)
qed


text \<open>
  Once the extractor has been imported, the similarity has a value for every pair of
  paths, and the value lies between 0 and 1.  It is 0 when reading or parsing either file
  fails, and 0 when both sets of requirement words are empty.  (The value is the exact
  quotient; rounding it to a float keeps it between 0 and 1.)
\<close>

lemma calculate_rule_similarity_imported:
  assumes imp: "import_from path_files ''extract_rule_section'' = Inr ()"
  shows "\<exists>r. calculate_rule_similarity path_files load fs p1 p2 = Inr r \<and> 0 \<le> r \<and> r \<le> 1
      \<and> ((\<exists>e. rule_extractor load fs p1 = Inl e) \<or> (\<exists>e. rule_extractor load fs p2 = Inl e)
            \<longrightarrow> r = 0)
      \<and> (\<forall>ext1 ext2. rule_extractor load fs p1 = Inr ext1 \<and> rule_extractor load fs p2 = Inr ext2
            \<and> requirement_words (e_content ext1) = {} \<and> requirement_words (e_content ext2) = {}
            \<longrightarrow> r = 0)"
proof -
  have fin: "finite (requirement_words t)" for t by (simp add: requirement_words_def)
  show ?thesis
    using jaccard_bounds [OF fin fin]
    by (auto simp: calculate_rule_similarity_def imp jaccard_def split: sum.splits)
qed

lemma compare_pairs_imported:
  assumes imp: "import_from path_files ''extract_rule_section'' = Inr ()"
  shows "\<exists>cs. compare_pairs path_files load fs ps = Inr cs
      \<and> (\<forall>c \<in> set cs. 0 \<le> cmp_similarity c \<and> cmp_similarity c \<le> 1)"
proof (induction ps)
  case Nil
  then show ?case by simp
next
  case (Cons p ps)
  obtain id1 info1 id2 info2 where p: "p = ((id1, info1), (id2, info2))"
    by (metis surj_pair)
  obtain r where r: "calculate_rule_similarity path_files load fs (ri_file_path info1)
      (ri_file_path info2) = Inr r" "0 \<le> r" "r \<le> 1"
    using calculate_rule_similarity_imported [OF imp] by blast
  from Cons obtain cs where cs: "compare_pairs path_files load fs ps = Inr cs"
    "\<forall>c \<in> set cs. 0 \<le> cmp_similarity c \<and> cmp_similarity c \<le> 1" by blast
  show ?case using r cs by (simp add: p)
qed

lemma compare_category_imported:
  assumes imp: "import_from path_files ''extract_rule_section'' = Inr ()"
  shows "\<exists>cs. compare_category path_files load fs index category language = Inr cs
      \<and> (\<forall>c \<in> set cs. 0 \<le> cmp_similarity c \<and> cmp_similarity c \<le> 1)"
proof -
  let ?rules = "filter (\<lambda>(rule_id, info). ri_category info = category
                   \<and> (language = None \<or> language = Some (ri_language info))) index"
  obtain cs where cs: "compare_pairs path_files load fs (pairs ?rules) = Inr cs"
    "\<forall>c \<in> set cs. 0 \<le> cmp_similarity c \<and> cmp_similarity c \<le> 1"
    using compare_pairs_imported [OF imp] by blast
  then show ?thesis by (simp add: compare_category_def)
qed

text \<open>
  C10 fails on the code.  In the repository as it is, the import at the head of
  \<open>_calculate_rule_similarity\<close> finds no module.  The import stands before the \<open>try\<close>
  block, so \<open>ModuleNotFoundError\<close> leaves the function at every call, whatever the two
  paths, the files and the YAML parser are; the value 0 is not returned.  With two rules
  of one category in the index, \<open>compare_category\<close> raises in the same way.
\<close>

theorem calculate_rule_similarity_raises:
  "calculate_rule_similarity tools_directory load fs rule1_path rule2_path
     = Inl ModuleNotFoundError
   \<and> compare_category tools_directory load fs
       [(''r1'', \<lparr>ri_file_path = ''r1.md'', ri_category = ''c'', ri_language = ''l'',
                  ri_severity = ''error'', ri_tags = [], ri_prerequisites = [],
                  ri_summary = ''s''\<rparr>),
        (''r2'', \<lparr>ri_file_path = ''r2.md'', ri_category = ''c'', ri_language = ''l'',
                  ri_severity = ''error'', ri_tags = [], ri_prerequisites = [],
                  ri_summary = ''s''\<rparr>)]
       ''c'' None
     = Inl ModuleNotFoundError"
proof -
  have r: "calculate_rule_similarity tools_directory load fs p1 p2 = Inl ModuleNotFoundError"
    for p1 p2
    by (simp add: calculate_rule_similarity_def import_from_def tools_directory_def)
  show ?thesis
    by (simp add: r compare_category_def)
qed

section \<open>Properties of the bundler\<close>

subsection \<open>The sections of a bundle\<close>

lemma set_dict_set: "set (dict_set d k v) \<subseteq> set d \<union> {(k, v)}"
  by (induction d) (auto split: if_splits)

lemma fst_dict_set: "set (map fst (dict_set d k v)) \<subseteq> set (map fst d) \<union> {k}"
  using set_dict_set [of d k v] by force

lemma sections_ok_dict_set:
  assumes "sections_ok secs" and "k \<in> set section_keys"
    and "k = ''good_examples'' \<Longrightarrow> at_most_one_example v"
  shows "sections_ok (dict_set secs k v)"
  unfolding sections_ok_def
proof (intro conjI ballI)
  show "set (map fst (dict_set secs k v)) \<subseteq> set section_keys"
    using fst_dict_set [of secs k v] assms(1,2) by (auto simp: sections_ok_def)
  fix kw assume kw: "kw \<in> set (dict_set secs k v)"
  then have "kw \<in> set secs \<or> kw = (k, v)"
    using set_dict_set [of secs k v] by auto
  then show "case kw of (k', w) \<Rightarrow> k' = ''good_examples'' \<longrightarrow> at_most_one_example w"
    using assms(1,3) by (auto simp: sections_ok_def)
qed

lemma sections_ok_add_section:
  assumes a: "sections_ok secs"
  shows "sections_ok (add_section text secs section)"
proof -
  have s1: "sections_ok (dict_set secs ''summary'' v)" for v
    by (rule sections_ok_dict_set [OF a]) (simp_all add: section_keys_def)
  have s2: "sections_ok (dict_set secs ''requirements'' v)" for v
    by (rule sections_ok_dict_set [OF a]) (simp_all add: section_keys_def)
  have s3: "sections_ok (dict_set secs ''antipatterns'' v)" for v
    by (rule sections_ok_dict_set [OF a]) (simp_all add: section_keys_def)
  have s4: "sections_ok (dict_set secs ''good_examples'' (Examples (take 1 xs)))" for xs
    by (rule sections_ok_dict_set [OF a]) (simp_all add: section_keys_def at_most_one_example_def)
  have s5: "sections_ok (dict_set secs ''context'' v)" for v
    by (rule sections_ok_dict_set [OF a]) (simp_all add: section_keys_def)
  show ?thesis
    unfolding add_section_def using a s1 s2 s3 s4 s5 by presburger
qed

lemma sections_ok_foldl:
  "sections_ok secs \<Longrightarrow> sections_ok (foldl (add_section text) secs sections)"
  by (induction sections arbitrary: secs) (auto intro: sections_ok_add_section)

lemma add_section_unrecognized: "\<not> recognized section \<Longrightarrow> add_section text secs section = secs"
  by (auto simp: add_section_def recognized_def)

lemma foldl_add_section_filter:
  "foldl (add_section text) secs (filter recognized sections) = foldl (add_section text) secs sections"
  by (induction sections arbitrary: secs) (auto simp: add_section_unrecognized)

lemma build_bundle_loop_filter:
  "build_bundle_loop load fs index rule_ids (filter recognized sections) rules
     = build_bundle_loop load fs index rule_ids sections rules"
proof (induction rule_ids arbitrary: rules)
  case Nil
  then show ?case by simp
next
  case (Cons rule_id rule_ids)
  show ?case
    by (simp add: Cons.IH foldl_add_section_filter split: option.split sum.split)
qed

lemma build_bundle_loop_ok:
  assumes "build_bundle_loop load fs index rule_ids sections rules = Inr result"
    and "\<forall>(rid, rule) \<in> set rules. sections_ok (br_sections rule)"
  shows "\<forall>(rid, rule) \<in> set result. sections_ok (br_sections rule)"
  using assms
proof (induction rule_ids arbitrary: rules)
  case Nil
  then show ?case by simp
next
  case (Cons rule_id rule_ids)
  show ?case
  proof (cases "map_of index rule_id")
    case None
    then show ?thesis using Cons by simp
  next
    case (Some info)
    show ?thesis
    proof (cases "fs (ri_file_path info)")
      case None
      then show ?thesis using Cons Some by simp
    next
      case (Some body)
      note fsome = Some
      show ?thesis
      proof (cases "rule_extractor load fs (ri_file_path info)")
        case (Inl e)
        then show ?thesis using Cons.prems \<open>map_of index rule_id = Some info\<close> fsome by simp
      next
        case (Inr extractor)
        define entry where "entry =
          \<lparr>br_metadata = \<lparr>bm_rule_id = rule_id, bm_category = ri_category info,
                           bm_language = ri_language info, bm_severity = ri_severity info\<rparr>,
           br_sections = foldl (add_section (e_content extractor)) [] sections\<rparr>"
        have ok0: "sections_ok []" by (simp add: sections_ok_def)
        have ok: "sections_ok (br_sections entry)"
          unfolding entry_def using sections_ok_foldl [OF ok0] by simp
        have inv: "\<forall>(rid, rule) \<in> set (dict_set rules rule_id entry). sections_ok (br_sections rule)"
          using set_dict_set [of rules rule_id entry] Cons.prems(2) ok by auto
        have "build_bundle_loop load fs index rule_ids sections (dict_set rules rule_id entry) = Inr result"
          using Cons.prems(1) \<open>map_of index rule_id = Some info\<close> fsome Inr
          by (simp add: entry_def)
        then show ?thesis using Cons.IH inv by blast
      qed
    qed
  qed
qed


text \<open>
  C9.  A requested section name outside the recognized names has no effect on
  \<open>_build_bundle\<close>: the call gives what it gives for the request without those names, so
  such a name neither raises nor adds a key.  In every bundle that is returned, the keys
  of the sections of each rule are among \<open>summary\<close>, \<open>requirements\<close>, \<open>antipatterns\<close>,
  \<open>good_examples\<close> and \<open>context\<close>, and a \<open>good_examples\<close> section holds at most one
  example.  Both hold whether or not the import of the extractor succeeds.
\<close>

theorem build_bundle_sections:
  "build_bundle path_files load fs index rule_ids sections
     = build_bundle path_files load fs index rule_ids (filter recognized sections)
   \<and> (\<forall>result. build_bundle path_files load fs index rule_ids sections = Inr result
        \<longrightarrow> (\<forall>(rule_id, rule) \<in> set result. sections_ok (br_sections rule)))"
  using build_bundle_loop_ok [of load fs index rule_ids sections "[]"]
  by (auto simp: build_bundle_def build_bundle_loop_filter split: sum.splits)

theorem build_bundle_sections_witness:
  "build_bundle [''extract_rule_section.py''] (\<lambda>s. None) (Map.empty(''r1.md'' := Some ''# T''))
       [(''r1'', \<lparr>ri_file_path = ''r1.md'', ri_category = ''c'', ri_language = ''l'',
                  ri_severity = ''error'', ri_tags = [], ri_prerequisites = [],
                  ri_summary = ''s''\<rparr>)]
       [''r1''] [''RULE_SUMMARY'', ''bogus'', ''good_examples'']
     = Inr [(''r1'', \<lparr>br_metadata = \<lparr>bm_rule_id = ''r1'', bm_category = ''c'', bm_language = ''l'',
                                       bm_severity = ''error''\<rparr>,
                       br_sections = [(''summary'', Text None), (''good_examples'', Examples [])]\<rparr>)]
   \<and> build_bundle [''extract_rule_section.py''] (\<lambda>s. None) (Map.empty(''r1.md'' := Some ''# T''))
       [(''r1'', \<lparr>ri_file_path = ''r1.md'', ri_category = ''c'', ri_language = ''l'',
                  ri_severity = ''error'', ri_tags = [], ri_prerequisites = [],
                  ri_summary = ''s''\<rparr>)]
       [''r1''] [''RULE_SUMMARY'', ''bogus'', ''good_examples'']
     = build_bundle [''extract_rule_section.py''] (\<lambda>s. None) (Map.empty(''r1.md'' := Some ''# T''))
       [(''r1'', \<lparr>ri_file_path = ''r1.md'', ri_category = ''c'', ri_language = ''l'',
                  ri_severity = ''error'', ri_tags = [], ri_prerequisites = [],
                  ri_summary = ''s''\<rparr>)]
       [''r1''] (filter recognized [''RULE_SUMMARY'', ''bogus'', ''good_examples''])
   \<and> sections_ok [(''summary'', Text None), (''good_examples'', Examples [])]"
proof -
  have s: "extract_section ''# T'' ''RULE_SUMMARY'' = None"
    by code_simp
  have e: "extract_examples ''# T'' ''good'' = []"
    by code_simp
  have val: "build_bundle [''extract_rule_section.py''] (\<lambda>s. None) (Map.empty(''r1.md'' := Some ''# T''))
       [(''r1'', \<lparr>ri_file_path = ''r1.md'', ri_category = ''c'', ri_language = ''l'',
                  ri_severity = ''error'', ri_tags = [], ri_prerequisites = [],
                  ri_summary = ''s''\<rparr>)]
       [''r1''] [''RULE_SUMMARY'', ''bogus'', ''good_examples'']
     = Inr [(''r1'', \<lparr>br_metadata = \<lparr>bm_rule_id = ''r1'', bm_category = ''c'', bm_language = ''l'',
                                       bm_severity = ''error''\<rparr>,
                       br_sections = [(''summary'', Text None), (''good_examples'', Examples [])]\<rparr>)]"
    by (simp add: build_bundle_def import_from_def rule_extractor_def extract_metadata_def
          add_section_def s e)
  from val build_bundle_sections [of "[''extract_rule_section.py'']" "\<lambda>s. None" "Map.empty(''r1.md'' := Some ''# T'')"
      "[(''r1'', \<lparr>ri_file_path = ''r1.md'', ri_category = ''c'', ri_language = ''l'',
                  ri_severity = ''error'', ri_tags = [], ri_prerequisites = [],
                  ri_summary = ''s''\<rparr>)]"
      "[''r1'']" "[''RULE_SUMMARY'', ''bogus'', ''good_examples'']"]
  show ?thesis by auto
qed

subsection \<open>\<open>optimize_bundle\<close> and the caller's bundle\<close>

text \<open>Within the budget the bundle itself is returned and the store is unchanged.\<close>

lemma optimize_bundle_within_budget:
  "estimate_tokens h bundle = Inr t \<Longrightarrow> int t \<le> max_tokens
     \<Longrightarrow> optimize_bundle h bundle max_tokens = Inr (h, bundle)"
  by (simp add: optimize_bundle_def)

text \<open>
  C3 fails on the code.  The store below holds a bundle at address 0 with one rule, whose
  sections (object 3) have a summary and one good example; its estimate is 35 tokens.
  With a budget of 20 tokens \<open>optimize_bundle\<close> returns a new top-level object (address 4),
  but that object refers to the same \<open>rules\<close> mapping, and the example has been deleted
  from the very sections object that the caller's bundle contains: after the call the
  caller's bundle has another value than before.
\<close>

theorem optimize_bundle_mutates_caller:
  "estimate_tokens
     [[(''rules'', Ref 1)], [(''r1'', Ref 2)],
      [(''metadata'', Val (JDict [(''rule_id'', JStr ''r1'')])), (''sections'', Ref 3)],
      [(''summary'', Val (JStr ''S'')),
       (''good_examples'', Val (JList [JStr ''a long example text that costs tokens'']))]] 0
     = Inr 35
   \<and> optimize_bundle
     [[(''rules'', Ref 1)], [(''r1'', Ref 2)],
      [(''metadata'', Val (JDict [(''rule_id'', JStr ''r1'')])), (''sections'', Ref 3)],
      [(''summary'', Val (JStr ''S'')),
       (''good_examples'', Val (JList [JStr ''a long example text that costs tokens'']))]] 0 20
     = Inr ([[(''rules'', Ref 1)], [(''r1'', Ref 2)],
             [(''metadata'', Val (JDict [(''rule_id'', JStr ''r1'')])), (''sections'', Ref 3)],
             [(''summary'', Val (JStr ''S''))],
             [(''rules'', Ref 1)]], 4)
   \<and> bundle_value
     [[(''rules'', Ref 1)], [(''r1'', Ref 2)],
      [(''metadata'', Val (JDict [(''rule_id'', JStr ''r1'')])), (''sections'', Ref 3)],
      [(''summary'', Val (JStr ''S'')),
       (''good_examples'', Val (JList [JStr ''a long example text that costs tokens'']))]] 0
     = Some (JDict [(''rules'', JDict [(''r1'', JDict
          [(''metadata'', JDict [(''rule_id'', JStr ''r1'')]),
           (''sections'', JDict [(''summary'', JStr ''S''),
              (''good_examples'', JList [JStr ''a long example text that costs tokens''])])])])])
   \<and> bundle_value
     [[(''rules'', Ref 1)], [(''r1'', Ref 2)],
      [(''metadata'', Val (JDict [(''rule_id'', JStr ''r1'')])), (''sections'', Ref 3)],
      [(''summary'', Val (JStr ''S''))],
      [(''rules'', Ref 1)]] 0
     = Some (JDict [(''rules'', JDict [(''r1'', JDict
          [(''metadata'', JDict [(''rule_id'', JStr ''r1'')]),
           (''sections'', JDict [(''summary'', JStr ''S'')])])])])"
  by code_simp

section \<open>Properties of the task analysis\<close>

text \<open>
  C4.  For the task "review typescript code for testing issues" the analysis gives the
  action \<open>review\<close>, has \<open>typescript\<close> among the languages and \<open>test-naming\<close> among the
  categories, and the sections chosen for extraction are exactly \<open>RULE_SUMMARY\<close>,
  \<open>MUST_NOT_DO\<close> and \<open>antipatterns\<close>.
\<close>

theorem bundle_for_task_review_typescript:
  "action (analyze_task ''review typescript code for testing issues'') = ''review''
   \<and> ''typescript'' \<in> set (languages (analyze_task ''review typescript code for testing issues''))
   \<and> ''test-naming'' \<in> set (categories (analyze_task ''review typescript code for testing issues''))
   \<and> determine_sections_for_task ''review typescript code for testing issues''
       = [''RULE_SUMMARY'', ''MUST_NOT_DO'', ''antipatterns'']"
  by code_simp

end
